theory Spec2Isabelle
  imports Complex_Main "HOL-Library.Word"
begin

section \<open>JavaScript strings and values\<close>

text \<open>
  A JavaScript string is a sequence of UTF-16 code units. Identifiers that the script
  only ever compares with its own ASCII literals (element ids, class names, tag names,
  attribute and event names) are kept as HOL strings.
\<close>

type_synonym jsstring = "16 word list"

definition lit :: "string \<Rightarrow> jsstring" where
  "lit s = map (\<lambda>c. of_nat (of_char c)) s"

datatype js_error = ReferenceError string | TypeError string | URIError

text \<open>
  The values that reach the template literals of the form handlers: \<open>null\<close>,
  \<open>undefined\<close>, a string, or a host object such as a \<open>File\<close> entry of a
  \<open>FormData\<close>.
\<close>

datatype js_value = JNull | JUndefined | JStr jsstring | JObj string

fun truthy :: "js_value \<Rightarrow> bool" where
  "truthy JNull = False"
| "truthy JUndefined = False"
| "truthy (JStr s) = (s \<noteq> [])"
| "truthy (JObj c) = True"

text \<open>\<open>a || b\<close>\<close>

definition js_or :: "js_value \<Rightarrow> js_value \<Rightarrow> js_value" where
  "js_or a b = (if truthy a then a else b)"

text \<open>\<open>a || b\<close> where both are strings.\<close>

definition or_str :: "jsstring \<Rightarrow> jsstring \<Rightarrow> jsstring" where
  "or_str a b = (if a = [] then b else a)"

text \<open>\<open>ToString\<close>, as a template literal applies it to a substitution.\<close>

fun to_string :: "js_value \<Rightarrow> jsstring" where
  "to_string JNull = lit ''null''"
| "to_string JUndefined = lit ''undefined''"
| "to_string (JStr s) = s"
| "to_string (JObj c) = lit ''[object '' @ lit c @ lit '']''"

text \<open>
  \<open>String.prototype.trim\<close>: strips white space and line terminators (ECMAScript
  \<open>WhiteSpace\<close> and \<open>LineTerminator\<close>) from both ends.
\<close>

definition js_space :: "16 word \<Rightarrow> bool" where
  "js_space c = (c \<in> set [0x9, 0xA, 0xB, 0xC, 0xD, 0x20, 0xA0, 0x1680, 0x2000, 0x2001,
     0x2002, 0x2003, 0x2004, 0x2005, 0x2006, 0x2007, 0x2008, 0x2009, 0x200A, 0x2028,
     0x2029, 0x202F, 0x205F, 0x3000, 0xFEFF])"

definition trim :: "jsstring \<Rightarrow> jsstring" where
  "trim s = rev (dropWhile js_space (rev (dropWhile js_space s)))"

subsection \<open>encodeURIComponent and decodeURIComponent\<close>

text \<open>
  \<open>encodeURIComponent\<close> (ECMAScript \<open>Encode\<close>): code units of the unreserved set
  (ASCII letters and digits and \<open>- _ . ! ~ * ' ( )\<close>) are copied, every other code point
  is UTF-8 encoded and each octet written as \<open>%XX\<close> with upper-case digits; an unpaired
  surrogate throws \<open>URIError\<close>.
\<close>

definition uri_unescaped :: "16 word \<Rightarrow> bool" where
  "uri_unescaped c = ((0x41 \<le> c \<and> c \<le> 0x5A) \<or> (0x61 \<le> c \<and> c \<le> 0x7A) \<or> (0x30 \<le> c \<and> c \<le> 0x39)
     \<or> c \<in> set (lit ''-_.!~*()'') \<or> c = 0x27)"

definition is_lead :: "16 word \<Rightarrow> bool" where
  "is_lead c = (0xD800 \<le> c \<and> c \<le> 0xDBFF)"

definition is_trail :: "16 word \<Rightarrow> bool" where
  "is_trail c = (0xDC00 \<le> c \<and> c \<le> 0xDFFF)"

definition pair_to_code_point :: "16 word \<Rightarrow> 16 word \<Rightarrow> nat" where
  "pair_to_code_point hi lo = (unat hi - 0xD800) * 0x400 + (unat lo - 0xDC00) + 0x10000"

definition utf8_encode :: "nat \<Rightarrow> nat list" where
  "utf8_encode cp =
     (if cp < 0x80 then [cp]
      else if cp < 0x800 then [0xC0 + cp div 0x40, 0x80 + cp mod 0x40]
      else if cp < 0x10000 then
        [0xE0 + cp div 0x1000, 0x80 + (cp div 0x40) mod 0x40, 0x80 + cp mod 0x40]
      else [0xF0 + cp div 0x40000, 0x80 + (cp div 0x1000) mod 0x40,
            0x80 + (cp div 0x40) mod 0x40, 0x80 + cp mod 0x40])"

definition hex_digit :: "nat \<Rightarrow> 16 word" where
  "hex_digit n = (if n < 10 then 0x30 + of_nat n else 0x41 + of_nat (n - 10))"

definition percent_octet :: "nat \<Rightarrow> jsstring" where
  "percent_octet b = [0x25, hex_digit (b div 16), hex_digit (b mod 16)]"

text \<open>
  One step of the loop of \<open>Encode\<close> at the code unit \<open>c\<close>, followed by \<open>cs\<close>: what
  is appended to the result and how many code units of \<open>cs\<close> the step consumes as
  well, or \<open>None\<close> when it throws.
\<close>

definition encode_step :: "16 word \<Rightarrow> jsstring \<Rightarrow> (jsstring \<times> nat) option" where
  "encode_step c cs =
     (if uri_unescaped c then Some ([c], 0)
      else if is_trail c then None
      else if is_lead c then
        (case cs of
           [] \<Rightarrow> None
         | d # ds \<Rightarrow>
             if is_trail d
             then Some (concat (map percent_octet (utf8_encode (pair_to_code_point c d))), 1)
             else None)
      else Some (concat (map percent_octet (utf8_encode (unat c))), 0))"

definition prepend :: "jsstring \<Rightarrow> js_error + jsstring \<Rightarrow> js_error + jsstring" where
  "prepend s r = (case r of Inl e \<Rightarrow> Inl e | Inr t \<Rightarrow> Inr (s @ t))"

fun encodeURIComponent :: "jsstring \<Rightarrow> js_error + jsstring" where
  "encodeURIComponent [] = Inr []"
| "encodeURIComponent (c # cs) =
     (case encode_step c cs of
        None \<Rightarrow> Inl URIError
      | Some (escaped, n) \<Rightarrow> prepend escaped (encodeURIComponent (drop n cs)))"

text \<open>
  \<open>decodeURIComponent\<close> (ECMAScript \<open>Decode\<close> with an empty reserved set): a code unit
  other than \<open>%\<close> is copied; \<open>%XX\<close> starts a UTF-8 sequence whose length the leading
  octet fixes, the continuation octets must follow as \<open>%XX\<close> each, and the octets must
  be a well-formed UTF-8 encoding; everything else throws \<open>URIError\<close>.
\<close>

definition hex_value :: "16 word \<Rightarrow> nat option" where
  "hex_value c =
     (if 0x30 \<le> c \<and> c \<le> 0x39 then Some (unat c - 0x30)
      else if 0x41 \<le> c \<and> c \<le> 0x46 then Some (unat c - 0x41 + 10)
      else if 0x61 \<le> c \<and> c \<le> 0x66 then Some (unat c - 0x61 + 10)
      else None)"

fun parse_hex_octet :: "jsstring \<Rightarrow> nat option" where
  "parse_hex_octet (h # l # cs) =
     (case hex_value h of
        None \<Rightarrow> None
      | Some a \<Rightarrow> (case hex_value l of None \<Rightarrow> None | Some b \<Rightarrow> Some (16 * a + b)))"
| "parse_hex_octet cs = None"

definition leading_ones :: "nat \<Rightarrow> nat" where
  "leading_ones b =
     (if b < 0x80 then 0 else if b < 0xC0 then 1 else if b < 0xE0 then 2
      else if b < 0xF0 then 3 else if b < 0xF8 then 4 else 5)"

fun continuation_octets :: "nat \<Rightarrow> jsstring \<Rightarrow> nat list option" where
  "continuation_octets 0 cs = Some []"
| "continuation_octets (Suc n) cs =
     (case cs of
        p # rest \<Rightarrow>
          if p = 0x25 then
            (case parse_hex_octet rest of
               None \<Rightarrow> None
             | Some b \<Rightarrow>
                 (case continuation_octets n (drop 2 rest) of
                    None \<Rightarrow> None
                  | Some bs \<Rightarrow> Some (b # bs)))
          else None
      | [] \<Rightarrow> None)"

definition is_cont :: "nat \<Rightarrow> bool" where
  "is_cont b = (0x80 \<le> b \<and> b < 0xC0)"

fun utf8_decode :: "nat list \<Rightarrow> nat option" where
  "utf8_decode [a, b] =
     (if 0xC2 \<le> a \<and> a < 0xE0 \<and> is_cont b then Some ((a - 0xC0) * 0x40 + (b - 0x80))
      else None)"
| "utf8_decode [a, b, c] =
     (let v = (a - 0xE0) * 0x1000 + (b - 0x80) * 0x40 + (c - 0x80)
      in if 0xE0 \<le> a \<and> a < 0xF0 \<and> is_cont b \<and> is_cont c \<and> 0x800 \<le> v
            \<and> (v < 0xD800 \<or> 0xDFFF < v)
         then Some v else None)"
| "utf8_decode [a, b, c, d] =
     (let v = (a - 0xF0) * 0x40000 + (b - 0x80) * 0x1000 + (c - 0x80) * 0x40 + (d - 0x80)
      in if 0xF0 \<le> a \<and> a < 0xF8 \<and> is_cont b \<and> is_cont c \<and> is_cont d \<and> 0x10000 \<le> v
            \<and> v \<le> 0x10FFFF
         then Some v else None)"
| "utf8_decode bs = None"

definition utf16_encode :: "nat \<Rightarrow> jsstring" where
  "utf16_encode v =
     (if v < 0x10000 then [of_nat v]
      else [of_nat (0xD800 + (v - 0x10000) div 0x400), of_nat (0xDC00 + (v - 0x10000) mod 0x400)])"

text \<open>
  One step of the loop of \<open>Decode\<close> at the code unit \<open>c\<close>, followed by \<open>cs\<close>: the
  code units it appends and how many code units of \<open>cs\<close> it consumes as well.
\<close>

definition decode_step :: "16 word \<Rightarrow> jsstring \<Rightarrow> (jsstring \<times> nat) option" where
  "decode_step c cs =
     (if c \<noteq> 0x25 then Some ([c], 0)
      else
        (case parse_hex_octet cs of
           None \<Rightarrow> None
         | Some b \<Rightarrow>
             if leading_ones b = 0 then Some ([of_nat b], 2)
             else if leading_ones b = 1 \<or> 4 < leading_ones b then None
             else
               (case continuation_octets (leading_ones b - 1) (drop 2 cs) of
                  None \<Rightarrow> None
                | Some bs \<Rightarrow>
                    (case utf8_decode (b # bs) of
                       None \<Rightarrow> None
                     | Some v \<Rightarrow> Some (utf16_encode v, 2 + 3 * (leading_ones b - 1))))))"

fun decodeURIComponent :: "jsstring \<Rightarrow> js_error + jsstring" where
  "decodeURIComponent [] = Inr []"
| "decodeURIComponent (c # cs) =
     (case decode_step c cs of
        None \<Rightarrow> Inl URIError
      | Some (units, n) \<Rightarrow> prepend units (decodeURIComponent (drop n cs)))"

section \<open>The document\<close>

text \<open>
  The document is the list of its elements in tree order, each with its nesting depth:
  the descendants of an element are the run of deeper elements that follows it. An
  element object keeps its identity (\<open>key\<close>) for as long as it exists, which is what
  a closure of the script holds when it captures an element. \<open>content\<close> is the markup
  last written through \<open>innerHTML\<close> or \<open>textContent\<close>; \<open>val\<close> is the
  \<open>value\<close> property: a string on form controls, a number on \<open>li\<close>, \<open>progress\<close> and
  \<open>meter\<close>, and \<open>undefined\<close> on the other elements;
  \<open>styled\<close> lists the inline style properties the script has written (their values
  are formatted floating-point numbers and are not kept).
\<close>

datatype observer = LazyIO | RevealIO | ContactIO

datatype dom_value = NoValue | StringValue jsstring | NumberValue real

datatype handler =
    NavScroll "nat option"
  | Parallax | TiltMove | TiltLeave
  | SvcPrev | SvcNext | SvcWheel | SvcKey
  | ItemClick | ItemKey | LbClose | LbBackdrop
  | FieldInput | FieldChange
  | OrderSubmit nat | ContactSubmit nat | QuickWa

record element =
  key :: nat
  depth :: nat
  tag :: string
  ident :: string
  classes :: "string list"
  attrs :: "(string \<times> jsstring) list"
  content :: jsstring
  val :: dom_value
  styled :: "string list"
  listeners :: "(string \<times> handler) list"
  observed_by :: "observer list"

datatype load_error = HttpStatus nat | TransportError

datatype event =
    Called string
  | FetchIssued jsstring
  | InnerHTMLSet string jsstring
  | ConsoleWarn string
  | ConsoleError jsstring load_error
  | DefaultPrevented
  | WindowOpened jsstring jsstring

record page =
  doc :: "element list"
  next_key :: nat
  window_listeners :: "(string \<times> handler) list"
  observeLazy_defined :: bool
  scrollY :: real
  now :: nat
  log :: "event list"

text \<open>A call either returns or throws; what it had done to the page by then stays done.\<close>

datatype outcome = Normal page | Thrown js_error page

fun page_of :: "outcome \<Rightarrow> page" where
  "page_of (Normal p) = p"
| "page_of (Thrown e p) = p"

fun thrown :: "outcome \<Rightarrow> js_error option" where
  "thrown (Normal p) = None"
| "thrown (Thrown e p) = Some e"

text \<open>
  What the script is given from outside: the server's answer to a fetch and the time it
  takes, the browser's HTML parser, the calendar year, the browser's conversion of a
  number to a string, and the global functions that scripts other than main.js define.
\<close>

datatype body = BodyText jsstring | BodyFailed

datatype response = NetworkFailed | Response nat body

record env =
  fetch :: "jsstring \<Rightarrow> response"
  latency :: "jsstring \<Rightarrow> nat"
  parse_html :: "jsstring \<Rightarrow> element list"
  full_year :: nat
  show_number :: "real \<Rightarrow> jsstring"
  globals :: "string \<Rightarrow> (page \<Rightarrow> outcome) option"

subsection \<open>Element operations\<close>

definition has_class :: "string \<Rightarrow> element \<Rightarrow> bool" where
  "has_class c e = (c \<in> set (classes e))"

definition add_class :: "string \<Rightarrow> element \<Rightarrow> element" where
  "add_class c e = (if c \<in> set (classes e) then e else e\<lparr>classes := classes e @ [c]\<rparr>)"

definition remove_class :: "string \<Rightarrow> element \<Rightarrow> element" where
  "remove_class c e = e\<lparr>classes := removeAll c (classes e)\<rparr>"

definition get_attr :: "string \<Rightarrow> element \<Rightarrow> jsstring option" where
  "get_attr n e = map_of (attrs e) n"

definition set_attr :: "string \<Rightarrow> jsstring \<Rightarrow> element \<Rightarrow> element" where
  "set_attr n v e =
     (if n \<in> set (map fst (attrs e))
      then e\<lparr>attrs := map (\<lambda>(a, w). if a = n then (a, v) else (a, w)) (attrs e)\<rparr>
      else e\<lparr>attrs := attrs e @ [(n, v)]\<rparr>)"

definition set_style :: "string \<Rightarrow> element \<Rightarrow> element" where
  "set_style n e = (if n \<in> set (styled e) then e else e\<lparr>styled := styled e @ [n]\<rparr>)"

definition add_listener :: "string \<Rightarrow> handler \<Rightarrow> element \<Rightarrow> element" where
  "add_listener ev h e = e\<lparr>listeners := listeners e @ [(ev, h)]\<rparr>"

text \<open>\<open>observe\<close> of a target the observer already watches does nothing.\<close>

definition observe :: "observer \<Rightarrow> element \<Rightarrow> element" where
  "observe ob e =
     (if ob \<in> set (observed_by e) then e else e\<lparr>observed_by := observed_by e @ [ob]\<rparr>)"

definition unobserve :: "observer \<Rightarrow> element \<Rightarrow> element" where
  "unobserve ob e = e\<lparr>observed_by := removeAll ob (observed_by e)\<rparr>"

subsection \<open>Queries and updates\<close>

definition querySelector :: "(element \<Rightarrow> bool) \<Rightarrow> element list \<Rightarrow> nat option" where
  "querySelector sel d = map_option key (find sel d)"

definition getElementById :: "string \<Rightarrow> element list \<Rightarrow> nat option" where
  "getElementById i d = querySelector (\<lambda>e. i \<noteq> [] \<and> ident e = i) d"

definition element_of :: "nat \<Rightarrow> element list \<Rightarrow> element option" where
  "element_of k d = find (\<lambda>e. key e = k) d"

definition update_el :: "nat \<Rightarrow> (element \<Rightarrow> element) \<Rightarrow> element list \<Rightarrow> element list" where
  "update_el k f d = map (\<lambda>e. if key e = k then f e else e) d"

definition update_opt :: "nat option \<Rightarrow> (element \<Rightarrow> element) \<Rightarrow> element list \<Rightarrow> element list" where
  "update_opt r f d = (case r of None \<Rightarrow> d | Some k \<Rightarrow> update_el k f d)"

definition update_all :: "(element \<Rightarrow> bool) \<Rightarrow> (element \<Rightarrow> element) \<Rightarrow> element list \<Rightarrow> element list" where
  "update_all sel f d = map (\<lambda>e. if sel e then f e else e) d"

fun descendants_of :: "nat \<Rightarrow> element list \<Rightarrow> element list" where
  "descendants_of k [] = []"
| "descendants_of k (e # es) =
     (if key e = k then takeWhile (\<lambda>x. depth e < depth x) es else descendants_of k es)"

text \<open>Each element with its parent: the nearest shallower element before it.\<close>

fun with_parents :: "element list \<Rightarrow> element list \<Rightarrow> (element option \<times> element) list" where
  "with_parents stack [] = []"
| "with_parents stack (e # es) =
     (let open_els = dropWhile (\<lambda>a. depth e \<le> depth a) stack
      in (case open_els of [] \<Rightarrow> None | a # as \<Rightarrow> Some a, e) # with_parents (e # open_els) es)"

text \<open>
  Writing \<open>innerHTML\<close> or \<open>textContent\<close> on the element \<open>k\<close>: its descendants leave
  the document and the new children take their place.
\<close>

fun replace_children :: "nat \<Rightarrow> jsstring \<Rightarrow> element list \<Rightarrow> element list \<Rightarrow> element list" where
  "replace_children k src kids [] = []"
| "replace_children k src kids (e # es) =
     (if key e = k
      then e\<lparr>content := src\<rparr> # map (\<lambda>x. x\<lparr>depth := depth x + Suc (depth e)\<rparr>) kids
             @ dropWhile (\<lambda>x. depth e < depth x) es
      else e # replace_children k src kids es)"

text \<open>Freshly parsed elements are new objects: new keys, no listeners, no observers.\<close>

definition fresh :: "nat \<Rightarrow> element list \<Rightarrow> element list" where
  "fresh base kids =
     map (\<lambda>(i, e). e\<lparr>key := base + i, styled := [], listeners := [], observed_by := []\<rparr>)
       (enumerate 0 kids)"

definition set_innerHTML :: "env \<Rightarrow> nat \<Rightarrow> jsstring \<Rightarrow> page \<Rightarrow> page" where
  "set_innerHTML env k html p =
     (let kids = fresh (next_key p) (parse_html env html)
      in p\<lparr>doc := replace_children k html kids (doc p), next_key := next_key p + length kids\<rparr>)"

definition set_textContent :: "nat \<Rightarrow> jsstring \<Rightarrow> page \<Rightarrow> page" where
  "set_textContent k txt p = p\<lparr>doc := replace_children k txt [] (doc p)\<rparr>"

definition emit :: "event \<Rightarrow> page \<Rightarrow> page" where
  "emit ev p = p\<lparr>log := log p @ [ev]\<rparr>"

section \<open>Section loader\<close>

type_synonym descriptor = "string \<times> jsstring"

definition sections :: "descriptor list" where
  "sections =
     [(''section-navbar'', lit ''sections/navbar.html''),
      (''section-hero'', lit ''sections/hero.html''),
      (''section-services'', lit ''sections/services.html''),
      (''section-portfolio'', lit ''sections/portfolio.html''),
      (''section-ig'', lit ''sections/ig.html''),
      (''section-pesan'', lit ''sections/pesan.html''),
      (''section-cta'', lit ''sections/cta.html''),
      (''section-footer'', lit ''sections/footer.html'')]"

text \<open>\<open>res.ok\<close>: the status is in the range 200 to 299.\<close>

definition response_ok :: "nat \<Rightarrow> bool" where
  "response_ok status = (200 \<le> status \<and> status \<le> 299)"

definition failure_notice :: "jsstring \<Rightarrow> jsstring" where
  "failure_notice path =
     lit ''<div class='' @ [0x22] @ lit ''container py-4'' @ [0x22] @ lit ''><p class='' @ [0x22]
       @ lit ''text-muted'' @ [0x22] @ lit ''>Failed to load '' @ path @ lit ''</p></div>''"

text \<open>The \<open>catch\<close> block of \<open>loadSection\<close>.\<close>

definition load_failed :: "env \<Rightarrow> string \<Rightarrow> jsstring \<Rightarrow> load_error \<Rightarrow> page \<Rightarrow> page" where
  "load_failed env targetId path err p =
     (let p1 = emit (ConsoleError path err) p
      in case getElementById targetId (doc p1) of
           Some container \<Rightarrow>
             emit (InnerHTMLSet targetId (failure_notice path))
               (set_innerHTML env container (failure_notice path) p1)
         | None \<Rightarrow> p1)"

text \<open>
  \<open>loadSection\<close>: the function is suspended at \<open>await fetch\<close> until the response
  has arrived, \<open>latency env path\<close> later, and only then goes on.
\<close>

definition loadSection :: "env \<Rightarrow> string \<Rightarrow> jsstring \<Rightarrow> page \<Rightarrow> page" where
  "loadSection env targetId path p =
     (let p1 = (emit (FetchIssued path) p)\<lparr>now := now p + latency env path\<rparr>
      in case fetch env path of
           NetworkFailed \<Rightarrow> load_failed env targetId path TransportError p1
         | Response status b \<Rightarrow>
             if \<not> response_ok status then load_failed env targetId path (HttpStatus status) p1
             else
               (case b of
                  BodyFailed \<Rightarrow> load_failed env targetId path TransportError p1
                | BodyText html \<Rightarrow>
                    (case getElementById targetId (doc p1) of
                       Some container \<Rightarrow>
                         emit (InnerHTMLSet targetId html) (set_innerHTML env container html p1)
                     | None \<Rightarrow> emit (ConsoleWarn targetId) p1)))"

text \<open>The \<open>for ... of\<close> loop of \<open>loadAllSectionsSequentially\<close>.\<close>

fun load_each :: "env \<Rightarrow> descriptor list \<Rightarrow> page \<Rightarrow> page" where
  "load_each env [] p = p"
| "load_each env (s # ss) p = load_each env ss (loadSection env (fst s) (snd s) p)"


section \<open>Setup routines\<close>

subsection \<open>setYear\<close>

function decimal :: "nat \<Rightarrow> jsstring" where
  "decimal n = (if n < 10 then [0x30 + of_nat n] else decimal (n div 10) @ [0x30 + of_nat (n mod 10)])"
  by pat_completeness auto
termination
  by (relation "measure (\<lambda>n. n)") auto

definition year_selector :: "element \<Rightarrow> bool" where
  "year_selector e = (ident e \<in> set [''year'', ''year-js'', ''yearFooter''])"

definition year_targets :: "element list \<Rightarrow> nat list" where
  "year_targets d = map key (filter year_selector d)"

fun stamp :: "jsstring \<Rightarrow> nat list \<Rightarrow> page \<Rightarrow> page" where
  "stamp txt [] p = p"
| "stamp txt (k # ks) p = stamp txt ks (set_textContent k txt p)"

definition setYear :: "env \<Rightarrow> page \<Rightarrow> page" where
  "setYear env p = stamp (decimal (full_year env)) (year_targets (doc p)) p"

subsection \<open>Lazy loader\<close>

definition lazy_img :: "element \<Rightarrow> bool" where
  "lazy_img e = (tag e = ''img'' \<and> has_class ''lazy'' e)"

definition lazy_not_loaded :: "element \<Rightarrow> bool" where
  "lazy_not_loaded e = (lazy_img e \<and> \<not> has_class ''loaded'' e)"

text \<open>\<open>window.observeLazy\<close>, the rescan that \<open>initLazyLoader\<close> installs.\<close>

definition observeLazy :: "page \<Rightarrow> page" where
  "observeLazy p = p\<lparr>doc := update_all lazy_not_loaded (observe LazyIO) (doc p)\<rparr>"

definition initLazyLoader :: "page \<Rightarrow> page" where
  "initLazyLoader p =
     (if observeLazy_defined p then p
      else p\<lparr>doc := update_all lazy_img (observe LazyIO) (doc p), observeLazy_defined := True\<rparr>)"

text \<open>\<open>if (window.observeLazy) window.observeLazy();\<close>\<close>

definition observeLazy_if_defined :: "page \<Rightarrow> page" where
  "observeLazy_if_defined p = (if observeLazy_defined p then observeLazy p else p)"

text \<open>
  The observer's callback, for one entry: an intersecting image gets its real source,
  is marked loaded and is no longer observed.
\<close>

definition truthy_attr :: "string \<Rightarrow> element \<Rightarrow> jsstring option" where
  "truthy_attr n e = (case get_attr n e of None \<Rightarrow> None | Some v \<Rightarrow> if v = [] then None else Some v)"

definition lazy_entry :: "bool \<Rightarrow> element \<Rightarrow> element" where
  "lazy_entry isIntersecting img =
     (if \<not> isIntersecting then img
      else
        (let img1 =
           (case truthy_attr ''data-src'' img of
              None \<Rightarrow> img
            | Some src \<Rightarrow>
                (case truthy_attr ''data-srcset'' img of
                   None \<Rightarrow> set_attr ''src'' src img
                 | Some srcset \<Rightarrow> set_attr ''srcset'' srcset (set_attr ''src'' src img)))
         in unobserve LazyIO (add_class ''loaded'' img1)))"

fun lazy_callback :: "(nat \<times> bool) list \<Rightarrow> page \<Rightarrow> page" where
  "lazy_callback [] p = p"
| "lazy_callback ((k, isIntersecting) # entries) p =
     lazy_callback entries (p\<lparr>doc := update_el k (lazy_entry isIntersecting) (doc p)\<rparr>)"

subsection \<open>Reveal on scroll\<close>

text \<open>Every call creates an observer of its own, so the registration is always new.\<close>

definition observe_new :: "observer \<Rightarrow> element \<Rightarrow> element" where
  "observe_new ob e = e\<lparr>observed_by := observed_by e @ [ob]\<rparr>"

definition initRevealOnScroll :: "page \<Rightarrow> page" where
  "initRevealOnScroll p =
     (if filter (has_class ''reveal'') (doc p) = [] then p
      else p\<lparr>doc := update_all (has_class ''reveal'') (observe_new RevealIO) (doc p)\<rparr>)"

subsection \<open>Navbar behaviour on scroll\<close>

text \<open>
  The second \<open>DOMContentLoaded\<close> listener of the script. \<open>navbar\<close> is looked up once,
  when the listener runs, and \<open>onScroll\<close> closes over it; \<open>navbar.classList\<close> on
  \<open>null\<close> is a \<open>TypeError\<close>.
\<close>

definition onScroll :: "nat option \<Rightarrow> page \<Rightarrow> outcome" where
  "onScroll navbar p =
     (case navbar of
        None \<Rightarrow> Thrown (TypeError ''navbar is null'') p
      | Some k \<Rightarrow>
          if 50 < scrollY p
          then Normal (p\<lparr>doc := update_el k (add_class ''scrolled'') (doc p)\<rparr>)
          else Normal (p\<lparr>doc := update_el k (remove_class ''scrolled'') (doc p)\<rparr>))"

definition navbar_on_ready :: "page \<Rightarrow> outcome" where
  "navbar_on_ready p =
     (let navbar = getElementById ''topNav'' (doc p)
      in onScroll navbar
           (p\<lparr>window_listeners := window_listeners p @ [(''scroll'', NavScroll navbar)]\<rparr>))"

subsection \<open>Hero interactions\<close>

definition float_selector :: "element \<Rightarrow> bool" where
  "float_selector e = (has_class ''float-ico'' e \<or> has_class ''float-img'' e)"

definition parallax :: "nat option \<Rightarrow> nat list \<Rightarrow> page \<Rightarrow> page" where
  "parallax mockup floats p =
     p\<lparr>doc := update_all (\<lambda>e. key e \<in> set floats) (set_style ''transform'')
              (update_opt mockup (set_style ''transform'') (doc p))\<rparr>"

definition initHeroInteractions :: "page \<Rightarrow> page" where
  "initHeroInteractions p =
     (let mockup = getElementById ''heroMockup'' (doc p);
          floats = map key (filter float_selector (doc p));
          p1 = p\<lparr>window_listeners := window_listeners p @ [(''scroll'', Parallax)]\<rparr>;
          p2 = parallax mockup floats p1;
          p3 = p2\<lparr>doc := update_opt mockup
                  (add_listener ''mouseleave'' TiltLeave \<circ> add_listener ''mousemove'' TiltMove)
                  (doc p2)\<rparr>
      in observeLazy_if_defined p3)"

subsection \<open>Services scroller\<close>

definition initServicesScroller :: "page \<Rightarrow> page" where
  "initServicesScroller p =
     (case querySelector (\<lambda>e. has_class ''services-scroll'' e \<or> ident e = ''servicesScroll'') (doc p) of
        None \<Rightarrow> p
      | Some scrollWrap \<Rightarrow>
          (let prevBtn = querySelector (\<lambda>e. has_class ''svc-prev'' e \<or> ident e = ''svc-prev'') (doc p);
               nextBtn = querySelector (\<lambda>e. has_class ''svc-next'' e \<or> ident e = ''svc-next'') (doc p);
               d1 = update_opt prevBtn (add_listener ''click'' SvcPrev) (doc p);
               d2 = update_opt nextBtn (add_listener ''click'' SvcNext) d1;
               d3 = update_el scrollWrap (add_listener ''wheel'' SvcWheel) d2;
               d4 = update_el scrollWrap (add_listener ''keydown'' SvcKey) d3;
               d5 = update_el scrollWrap
                      (\<lambda>e. set_attr ''tabindex''
                         (case truthy_attr ''tabindex'' e of None \<Rightarrow> lit ''0'' | Some t \<Rightarrow> t) e) d4
           in observeLazy_if_defined (p\<lparr>doc := d5\<rparr>)))"

subsection \<open>Portfolio lightbox\<close>

definition initPortfolioLightbox :: "page \<Rightarrow> page" where
  "initPortfolioLightbox p =
     (case getElementById ''pfLightbox'' (doc p) of
        None \<Rightarrow> p
      | Some lb \<Rightarrow>
          (let d1 = update_all (has_class ''portfolio-item'')
                      (add_listener ''keydown'' ItemKey \<circ> add_listener ''click'' ItemClick) (doc p);
               closeBtn = querySelector (has_class ''close-lb'') (descendants_of lb d1);
               d2 = update_opt closeBtn (add_listener ''click'' LbClose) d1;
               d3 = update_el lb (add_listener ''click'' LbBackdrop) d2
           in p\<lparr>doc := d3\<rparr>))"

subsection \<open>Contact form enhancements\<close>

definition row_children :: "nat \<Rightarrow> element list \<Rightarrow> nat list" where
  "row_children form d =
     map (key \<circ> snd)
       (filter (\<lambda>(parent, e). (case parent of None \<Rightarrow> False | Some a \<Rightarrow> has_class ''row'' a)
                  \<and> key e \<in> set (map key (descendants_of form d)))
          (with_parents [] d))"

definition placeholder_field :: "element \<Rightarrow> bool" where
  "placeholder_field e =
     (tag e \<in> set [''input'', ''textarea'', ''select''] \<and> get_attr ''placeholder'' e \<noteq> None)"

text \<open>
  \<open>f.value && f.value.trim() !== ''\<close>: a number other than 0 has no \<open>trim\<close>, and the
  call throws.
\<close>

definition has_text :: "dom_value \<Rightarrow> js_error + bool" where
  "has_text v =
     (case v of
        NoValue \<Rightarrow> Inr False
      | StringValue t \<Rightarrow> Inr (t \<noteq> [] \<and> trim t \<noteq> [])
      | NumberValue x \<Rightarrow>
          if x = 0 then Inr False else Inl (TypeError ''f.value.trim is not a function''))"

text \<open>The \<open>forEach\<close> over the fields: it ends at the first field that throws.\<close>

fun wire_fields :: "nat list \<Rightarrow> page \<Rightarrow> outcome" where
  "wire_fields [] p = Normal p"
| "wire_fields (k # ks) p =
     (case element_of k (doc p) of
        None \<Rightarrow> wire_fields ks p
      | Some f \<Rightarrow>
          (case has_text (val f) of
             Inl err \<Rightarrow> Thrown err p
           | Inr filled \<Rightarrow>
               wire_fields ks
                 (p\<lparr>doc := update_el k
                    (\<lambda>f. add_listener ''change'' FieldChange
                           (add_listener ''input'' FieldInput
                              (if filled then add_class ''filled'' f else f))) (doc p)\<rparr>)))"

definition initContactForm :: "page \<Rightarrow> outcome" where
  "initContactForm p =
     (case getElementById ''contactForm'' (doc p) of
        None \<Rightarrow> Normal p
      | Some contactForm \<Rightarrow>
          (let rowChildren = row_children contactForm (doc p);
               d1 = update_all (\<lambda>e. key e \<in> set rowChildren)
                      (set_style ''transitionDelay'' \<circ> add_class ''reveal-child'') (doc p);
               contactSection = querySelector (has_class ''contact-section'') d1;
               d2 = update_opt contactSection (observe_new ContactIO) d1;
               fields = map key (filter placeholder_field (descendants_of contactForm d2))
           in wire_fields fields (p\<lparr>doc := d2\<rparr>)))"

subsection \<open>Order and contact form submission\<close>

text \<open>
  \<open>new FormData(orderForm)\<close> is the entry list the browser builds from the form's
  controls; \<open>get\<close> returns the first entry of a name, or \<open>null\<close>.
\<close>

datatype form_entry = EntryText jsstring | EntryFile

type_synonym form_data = "(string \<times> form_entry) list"

definition form_get :: "form_data \<Rightarrow> string \<Rightarrow> js_value" where
  "form_get data n =
     (case map_of data n of
        None \<Rightarrow> JNull
      | Some (EntryText s) \<Rightarrow> JStr s
      | Some EntryFile \<Rightarrow> JObj ''File'')"

definition wa_prefix :: jsstring where
  "wa_prefix = lit ''https://wa.me/6281931786798?text=''"

definition order_message :: "js_value \<Rightarrow> js_value \<Rightarrow> js_value \<Rightarrow> js_value \<Rightarrow> jsstring" where
  "order_message name service phone notes =
     lit ''Halo OnFix, saya *'' @ to_string name @ lit ''* ingin memesan layanan: *''
       @ to_string service @ lit ''*.'' @ [0xA] @ lit ''NoWA: '' @ to_string phone @ [0xA]
       @ lit ''Catatan: '' @ to_string notes"

definition order_text :: "form_data \<Rightarrow> jsstring" where
  "order_text data =
     (let name = js_or (form_get data ''name'') (JStr []);
          service = js_or (form_get data ''service'') (JStr []);
          phone = js_or (form_get data ''phone'') (JStr []);
          notes = js_or (form_get data ''notes'') (JStr [])
      in order_message name service phone notes)"

definition order_submit :: "form_data \<Rightarrow> page \<Rightarrow> outcome" where
  "order_submit data p =
     (let p1 = emit DefaultPrevented p
      in case encodeURIComponent (order_text data) of
           Inl err \<Rightarrow> Thrown err p1
         | Inr text \<Rightarrow> Normal (emit (WindowOpened (wa_prefix @ text) (lit ''_blank'')) p1))"

text \<open>
  \<open>contactForm.querySelector('#...')?.value\<close>: \<open>undefined\<close> when there is no such
  element or it has no \<open>value\<close>.
\<close>

definition field_value :: "nat \<Rightarrow> string \<Rightarrow> element list \<Rightarrow> dom_value" where
  "field_value form i d =
     (case find (\<lambda>e. ident e = i) (descendants_of form d) of None \<Rightarrow> NoValue | Some e \<Rightarrow> val e)"

text \<open>
  \<open>v?.trim() ?? ''\<close>: \<open>undefined\<close> gives the empty string, a string is trimmed, and a
  number has no \<open>trim\<close>, so the call throws.
\<close>

definition trimmed :: "dom_value \<Rightarrow> js_error + jsstring" where
  "trimmed v =
     (case v of
        NoValue \<Rightarrow> Inr []
      | StringValue t \<Rightarrow> Inr (trim t)
      | NumberValue x \<Rightarrow> Inl (TypeError ''value.trim is not a function''))"

fun is_number :: "dom_value \<Rightarrow> bool" where
  "is_number (NumberValue x) = True"
| "is_number v = False"

text \<open>
  The substitution \<open>service || '-'\<close> of the template, for \<open>service = v ?? ''\<close>: the
  empty string and the number 0 are falsy.
\<close>

definition service_or_dash :: "env \<Rightarrow> dom_value \<Rightarrow> jsstring" where
  "service_or_dash env v =
     (case v of
        NoValue \<Rightarrow> lit ''-''
      | StringValue t \<Rightarrow> or_str t (lit ''-'')
      | NumberValue x \<Rightarrow> if x = 0 then lit ''-'' else show_number env x)"

definition contact_message :: "jsstring \<Rightarrow> jsstring \<Rightarrow> jsstring \<Rightarrow> jsstring \<Rightarrow> jsstring" where
  "contact_message name shown_service msg phone =
     lit ''Halo OnFix, saya '' @ name @ lit ''.%0AIngin layanan: '' @ shown_service
       @ lit ''%0A'' @ msg @ lit ''%0AHubungi saya di: '' @ phone"

definition contact_text :: "env \<Rightarrow> nat \<Rightarrow> element list \<Rightarrow> js_error + jsstring" where
  "contact_text env contactForm d =
     (case trimmed (field_value contactForm ''name'' d) of
        Inl err \<Rightarrow> Inl err
      | Inr name \<Rightarrow>
          (case trimmed (field_value contactForm ''phone'' d) of
             Inl err \<Rightarrow> Inl err
           | Inr phone \<Rightarrow>
               (let service = field_value contactForm ''service'' d
                in case trimmed (field_value contactForm ''message'' d) of
                     Inl err \<Rightarrow> Inl err
                   | Inr msg \<Rightarrow>
                       Inr (contact_message name (service_or_dash env service) msg phone))))"

definition contact_submit :: "env \<Rightarrow> nat \<Rightarrow> page \<Rightarrow> outcome" where
  "contact_submit env contactForm p =
     (let p1 = emit DefaultPrevented p
      in case contact_text env contactForm (doc p1) of
           Inl err \<Rightarrow> Thrown err p1
         | Inr message \<Rightarrow>
             (case encodeURIComponent message of
                Inl err \<Rightarrow> Thrown err p1
              | Inr text \<Rightarrow>
                  Normal (emit (WindowOpened (wa_prefix @ text) (lit ''_blank'')) p1)))"

definition initOrderForm :: "page \<Rightarrow> page" where
  "initOrderForm p =
     (let d1 = (case getElementById ''orderForm'' (doc p) of
                  None \<Rightarrow> doc p
                | Some orderForm \<Rightarrow>
                    update_el orderForm (add_listener ''submit'' (OrderSubmit orderForm)) (doc p));
          d2 = (case getElementById ''contactForm'' d1 of
                  None \<Rightarrow> d1
                | Some contactForm \<Rightarrow>
                    update_el contactForm (add_listener ''submit'' (ContactSubmit contactForm)) d1);
          btn = querySelector (\<lambda>e. ident e = ''btn-wa'') d2
      in p\<lparr>doc := update_opt btn (add_listener ''click'' QuickWa) d2\<rparr>)"

section \<open>Top-level initializer\<close>

text \<open>
  The function declarations of main.js that \<open>initInteractions\<close> calls. A call of a name
  resolves to the script's own declaration, else to a global that another script
  defines, else it throws \<open>ReferenceError\<close>.
\<close>

definition main_js :: "env \<Rightarrow> string \<Rightarrow> (page \<Rightarrow> outcome) option" where
  "main_js env =
     map_of
       [(''setYear'', \<lambda>p. Normal (setYear env p)),
        (''initLazyLoader'', \<lambda>p. Normal (initLazyLoader p)),
        (''initRevealOnScroll'', \<lambda>p. Normal (initRevealOnScroll p)),
        (''initHeroInteractions'', \<lambda>p. Normal (initHeroInteractions p)),
        (''initServicesScroller'', \<lambda>p. Normal (initServicesScroller p)),
        (''initPortfolioLightbox'', \<lambda>p. Normal (initPortfolioLightbox p)),
        (''initContactForm'', initContactForm),
        (''initOrderForm'', \<lambda>p. Normal (initOrderForm p))]"

definition call_function :: "env \<Rightarrow> string \<Rightarrow> page \<Rightarrow> outcome" where
  "call_function env name p =
     (case main_js env name of
        Some f \<Rightarrow> f (emit (Called name) p)
      | None \<Rightarrow>
          (case globals env name of
             Some g \<Rightarrow> g (emit (Called name) p)
           | None \<Rightarrow> Thrown (ReferenceError name) p))"

text \<open>Statements in sequence: the first one that throws ends the function.\<close>

fun run_seq :: "(page \<Rightarrow> outcome) list \<Rightarrow> page \<Rightarrow> outcome" where
  "run_seq [] p = Normal p"
| "run_seq (f # fs) p = (case f p of Normal p1 \<Rightarrow> run_seq fs p1 | Thrown err p1 \<Rightarrow> Thrown err p1)"

definition initInteractions :: "env \<Rightarrow> page \<Rightarrow> outcome" where
  "initInteractions env p =
     run_seq
       [call_function env ''setYear'',
        call_function env ''initLazyLoader'',
        call_function env ''initRevealOnScroll'',
        call_function env ''initNavScroll'',
        call_function env ''initHeroInteractions'',
        call_function env ''initServicesScroller'',
        call_function env ''initPortfolioLightbox'',
        call_function env ''initContactForm'',
        call_function env ''initOrderForm'',
        \<lambda>q. Normal (observeLazy_if_defined q)]
       (emit (Called ''initInteractions'') p)"

text \<open>
  \<open>loadAllSectionsSequentially\<close>, for any manifest; the script runs it on \<open>sections\<close>.
\<close>

definition loadAllSections :: "env \<Rightarrow> descriptor list \<Rightarrow> page \<Rightarrow> outcome" where
  "loadAllSections env ds p = initInteractions env (load_each env ds p)"

definition loadAllSectionsSequentially :: "env \<Rightarrow> page \<Rightarrow> outcome" where
  "loadAllSectionsSequentially env p = loadAllSections env sections p"


section \<open>Reading the log and the document\<close>

text \<open>The paths fetched and the \<open>innerHTML\<close> writes of a log, in the order they happened.\<close>

fun fetched :: "event list \<Rightarrow> jsstring list" where
  "fetched [] = []"
| "fetched (FetchIssued path # evs) = path # fetched evs"
| "fetched (ev # evs) = fetched evs"

fun written :: "event list \<Rightarrow> (string \<times> jsstring) list" where
  "written [] = []"
| "written (InnerHTMLSet i html # evs) = (i, html) # written evs"
| "written (ev # evs) = written evs"

fun calls :: "event list \<Rightarrow> string list" where
  "calls [] = []"
| "calls (Called f # evs) = f # calls evs"
| "calls (ev # evs) = calls evs"

text \<open>
  Why the fetch of a path fails, if it does: a transport error, a status outside 200 to
  299, or a body that cannot be read.
\<close>

definition fetch_failure :: "env \<Rightarrow> jsstring \<Rightarrow> load_error option" where
  "fetch_failure env path =
     (case fetch env path of
        NetworkFailed \<Rightarrow> Some TransportError
      | Response status b \<Rightarrow>
          if response_ok status
          then (case b of BodyFailed \<Rightarrow> Some TransportError | BodyText html \<Rightarrow> None)
          else Some (HttpStatus status))"

text \<open>The markup a descriptor's container is to receive: the fragment, or the notice.\<close>

definition fill :: "env \<Rightarrow> jsstring \<Rightarrow> jsstring" where
  "fill env path =
     (case fetch env path of
        NetworkFailed \<Rightarrow> failure_notice path
      | Response status b \<Rightarrow>
          if response_ok status
          then (case b of BodyFailed \<Rightarrow> failure_notice path | BodyText html \<Rightarrow> html)
          else failure_notice path)"

text \<open>
  The events of one descriptor: its fetch, then what the settled fetch leads to, which
  is never another fetch and at most one write, of its own container with its own
  markup.
\<close>

definition section_block :: "env \<Rightarrow> descriptor \<Rightarrow> event list \<Rightarrow> bool" where
  "section_block env s b =
     (case b of
        FetchIssued path # settled \<Rightarrow>
          path = snd s \<and> settled \<noteq> [] \<and> fetched settled = []
          \<and> (written settled = [] \<or> written settled = [(fst s, fill env (snd s))])
      | _ \<Rightarrow> False)"

definition content_of :: "nat \<Rightarrow> element list \<Rightarrow> jsstring option" where
  "content_of k d = map_option content (element_of k d)"

text \<open>
  The loader's contract for one descriptor, as the specification words it: the target
  container, when the document has one, has its content replaced, by the resource on
  success and by the failure notice otherwise.
\<close>

definition fill_container :: "env \<Rightarrow> descriptor \<Rightarrow> page \<Rightarrow> page" where
  "fill_container env s p =
     (case getElementById (fst s) (doc p) of
        None \<Rightarrow> p
      | Some container \<Rightarrow> set_innerHTML env container (fill env (snd s)) p)"

text \<open>
  The document starts with the elements \<open>pre\<close>; no element after them has one of
  their keys, and their keys are below the next key to be given out.
\<close>

definition anchored :: "element list \<Rightarrow> page \<Rightarrow> bool" where
  "anchored pre p =
     (take (length pre) (doc p) = pre
      \<and> list_all (\<lambda>e. key e \<notin> set (map key pre)) (drop (length pre) (doc p))
      \<and> list_all (\<lambda>e. key e < next_key p) pre)"


text \<open>No element of the document has a listener.\<close>

definition unwired :: "element list \<Rightarrow> bool" where
  "unwired d = list_all (\<lambda>e. listeners e = []) d"

section \<open>Example pages\<close>

definition plain :: "nat \<Rightarrow> nat \<Rightarrow> string \<Rightarrow> string \<Rightarrow> element" where
  "plain k d t i =
     \<lparr>key = k, depth = d, tag = t, ident = i, classes = [], attrs = [], content = [],
      val = NoValue, styled = [], listeners = [], observed_by = []\<rparr>"

definition control :: "nat \<Rightarrow> nat \<Rightarrow> string \<Rightarrow> string \<Rightarrow> jsstring \<Rightarrow> element" where
  "control k d t i v = (plain k d t i)\<lparr>val := StringValue v\<rparr>"

definition page_with :: "element list \<Rightarrow> page" where
  "page_with d =
     \<lparr>doc = d, next_key = length d, window_listeners = [], observeLazy_defined = False,
      scrollY = 0, now = 0, log = []\<rparr>"

text \<open>
  index.html as the script expects it: the eight placeholder containers, here followed
  by an order form. The navbar itself is in sections/navbar.html.
\<close>

definition index_page :: page where
  "index_page =
     page_with
       [plain 0 0 ''div'' ''section-navbar'', plain 1 0 ''div'' ''section-hero'',
        plain 2 0 ''div'' ''section-services'', plain 3 0 ''div'' ''section-portfolio'',
        plain 4 0 ''div'' ''section-ig'', plain 5 0 ''div'' ''section-pesan'',
        plain 6 0 ''div'' ''section-cta'', plain 7 0 ''div'' ''section-footer'',
        plain 8 0 ''form'' ''orderForm'']"

text \<open>
  A server that has every fragment but sections/hero.html, fragments without elements of
  their own, and no script besides main.js. Its pages hold no number but whole ones.
\<close>

definition site :: env where
  "site =
     \<lparr>fetch = (\<lambda>path. if path = lit ''sections/hero.html'' then Response 404 (BodyText [])
                       else Response 200 (BodyText (lit ''<hr>''))),
      latency = (\<lambda>path. 30),
      parse_html = (\<lambda>html. if html = lit ''<hr>'' then [plain 0 0 ''hr'' []] else []),
      full_year = 2025,
      show_number = (\<lambda>x. decimal (nat \<lfloor>x\<rfloor>)),
      globals = (\<lambda>name. None)\<rparr>"

text \<open>A page with a navbar, scrolled down by 120 pixels.\<close>

definition navbar_page :: page where
  "navbar_page = (page_with [plain 0 0 ''nav'' ''topNav''])\<lparr>scrollY := 120\<rparr>"

text \<open>
  The server of \<open>site\<close>, with a navbar fragment that holds the element \<open>topNav\<close>,
  and the page once both \<open>DOMContentLoaded\<close> listeners have run on index.html: the
  navbar listener, registered on \<open>document\<close>, then the loader with the initializer,
  registered on \<open>window\<close>, where the event arrives after the document.
\<close>

definition site_nav :: env where
  "site_nav =
     site\<lparr>fetch := (\<lambda>path. if path = lit ''sections/navbar.html''
                             then Response 200 (BodyText (lit ''<nav id=topNav></nav>''))
                             else fetch site path),
          parse_html := (\<lambda>html. if html = lit ''<nav id=topNav></nav>''
                                  then [plain 0 0 ''nav'' ''topNav'']
                                  else parse_html site html)\<rparr>"

definition loaded_page :: page where
  "loaded_page = page_of (loadAllSectionsSequentially site_nav (page_of (navbar_on_ready index_page)))"

text \<open>A contact form with its four fields, the service left empty.\<close>

definition contact_page :: page where
  "contact_page =
     page_with
       [plain 0 0 ''form'' ''contactForm'',
        control 1 1 ''input'' ''name'' (lit ''Dina''),
        control 2 1 ''input'' ''phone'' (lit ''0812''),
        control 3 1 ''select'' ''service'' [],
        control 4 1 ''textarea'' ''message'' (lit ''AC rusak'')]"

text \<open>A contact form whose element \<open>name\<close> is a list item: its \<open>value\<close> is a number.\<close>

definition scored_page :: page where
  "scored_page =
     page_with
       [plain 0 0 ''form'' ''contactForm'',
        (plain 1 1 ''li'' ''name'')\<lparr>val := NumberValue 3\<rparr>]"

definition dina_order :: form_data where
  "dina_order =
     [(''name'', EntryText (lit ''Dina'')), (''service'', EntryText (lit ''AC Cleaning'')),
      (''phone'', EntryText (lit ''0812xxxx'')), (''notes'', EntryText (lit ''pagi''))]"

text \<open>Two lazy images, the second one already loaded.\<close>

definition gallery_page :: page where
  "gallery_page =
     page_with
       [(plain 0 0 ''img'' [])\<lparr>classes := [''lazy'']\<rparr>,
        (plain 1 0 ''img'' [])\<lparr>classes := [''lazy'', ''loaded'']\<rparr>]"


section \<open>Properties of the section loader\<close>

lemma emit_simps [simp]:
  "log (emit ev p) = log p @ [ev]" "doc (emit ev p) = doc p" "now (emit ev p) = now p"
  "next_key (emit ev p) = next_key p" "window_listeners (emit ev p) = window_listeners p"
  "observeLazy_defined (emit ev p) = observeLazy_defined p" "scrollY (emit ev p) = scrollY p"
  by (simp_all add: emit_def)

lemma set_innerHTML_simps [simp]:
  "log (set_innerHTML env k html p) = log p" "now (set_innerHTML env k html p) = now p"
  "doc (set_innerHTML env k html p) = replace_children k html (fresh (next_key p) (parse_html env html)) (doc p)"
  by (simp_all add: set_innerHTML_def Let_def)

lemma fetched_append [simp]: "fetched (xs @ ys) = fetched xs @ fetched ys"
  by (induction xs rule: fetched.induct) simp_all

lemma written_append [simp]: "written (xs @ ys) = written xs @ written ys"
  by (induction xs rule: written.induct) simp_all

lemma calls_append [simp]: "calls (xs @ ys) = calls xs @ calls ys"
  by (induction xs rule: calls.induct) simp_all

lemma log_load_failed:
  "log (load_failed env i path err p) =
     log p @ ConsoleError path err #
       (case getElementById i (doc p) of None \<Rightarrow> [] | Some k \<Rightarrow> [InnerHTMLSet i (failure_notice path)])"
  by (simp add: load_failed_def Let_def split: option.split)

lemma log_loadSection:
  "log (loadSection env i path p) =
     log p @ FetchIssued path #
       (case fetch_failure env path of
          Some err \<Rightarrow> ConsoleError path err #
            (case getElementById i (doc p) of None \<Rightarrow> [] | Some k \<Rightarrow> [InnerHTMLSet i (failure_notice path)])
        | None \<Rightarrow>
            (case getElementById i (doc p) of None \<Rightarrow> [ConsoleWarn i] | Some k \<Rightarrow> [InnerHTMLSet i (fill env path)]))"
  by (simp add: loadSection_def fetch_failure_def fill_def log_load_failed Let_def
      split: response.split body.split option.split)

lemma loadSection_block:
  "\<exists>b. log (loadSection env i path p) = log p @ b \<and> section_block env (i, path) b"
proof -
  have "fetch_failure env path \<noteq> None \<Longrightarrow> fill env path = failure_notice path"
    by (auto simp: fetch_failure_def fill_def split: response.splits body.splits if_splits)
  then show ?thesis
    by (auto simp: log_loadSection section_block_def split: option.splits)
qed

lemma load_each_append: "load_each env (ds @ ds') p = load_each env ds' (load_each env ds p)"
  by (induction ds arbitrary: p) simp_all

lemma load_each_blocks:
  "\<exists>blocks. log (load_each env ds p) = log p @ concat blocks \<and> list_all2 (section_block env) ds blocks"
proof (induction ds arbitrary: p)
  case Nil
  then show ?case by simp
next
  case (Cons s ds)
  obtain b where b: "log (loadSection env (fst s) (snd s) p) = log p @ b" "section_block env s b"
    using loadSection_block [of env "fst s" "snd s" p] by auto
  obtain bs where bs: "log (load_each env ds (loadSection env (fst s) (snd s) p)) =
      log (loadSection env (fst s) (snd s) p) @ concat bs" "list_all2 (section_block env) ds bs"
    using Cons.IH by blast
  have "log (load_each env (s # ds) p) = log p @ concat (b # bs)"
    using b bs by simp
  moreover have "list_all2 (section_block env) (s # ds) (b # bs)"
    using b bs by simp
  ultimately show ?case by blast
qed

lemma fetched_loadSection: "fetched (log (loadSection env i path p)) = fetched (log p) @ [path]"
  by (simp add: log_loadSection split: option.split)

lemma fetched_load_each: "fetched (log (load_each env ds p)) = fetched (log p) @ map snd ds"
  by (induction ds arbitrary: p) (simp_all add: fetched_loadSection)

lemma loadSection_latency:
  "loadSection (env\<lparr>latency := l\<rparr>) i path p = (loadSection env i path p)\<lparr>now := now p + l path\<rparr>"
  by (simp add: loadSection_def load_failed_def set_innerHTML_def emit_def Let_def
      split: response.split body.split option.split)

lemma loadSection_now_update:
  "loadSection env i path (p\<lparr>now := t\<rparr>) = (loadSection env i path p)\<lparr>now := t + latency env path\<rparr>"
  by (simp add: loadSection_def load_failed_def set_innerHTML_def emit_def Let_def
      split: response.split body.split option.split)

lemma now_loadSection: "now (loadSection env i path p) = now p + latency env path"
  by (simp add: loadSection_def load_failed_def set_innerHTML_def emit_def Let_def
      split: response.split body.split option.split)

lemma load_each_now_update:
  "load_each env ds (p\<lparr>now := t\<rparr>) = (load_each env ds p)\<lparr>now := t + sum_list (map (latency env \<circ> snd) ds)\<rparr>"
proof (induction ds arbitrary: p t)
  case Nil
  then show ?case by simp
next
  case (Cons s ds)
  show ?case
    by (simp add: loadSection_now_update Cons.IH add.assoc)
qed


lemma load_each_latency:
  "load_each (env\<lparr>latency := l\<rparr>) ds p =
     (load_each env ds p)\<lparr>now := now p + sum_list (map (l \<circ> snd) ds)\<rparr>"
proof (induction ds arbitrary: p)
  case Nil
  then show ?case by simp
next
  case (Cons s ds)
  show ?case
    by (simp add: loadSection_latency Cons.IH load_each_now_update add.assoc comp_def)
qed

lemma now_load_each: "now (load_each env ds p) = now p + sum_list (map (latency env \<circ> snd) ds)"
  by (induction ds arbitrary: p) (simp_all add: now_loadSection add.assoc)

lemma find_replace_children:
  "find (\<lambda>e. key e = k) d = Some e \<Longrightarrow>
   find (\<lambda>e. key e = k) (replace_children k src kids d) = Some (e\<lparr>content := src\<rparr>)"
  by (induction d) (auto split: if_splits)

lemma getElementById_key:
  "getElementById i d = Some k \<Longrightarrow> \<exists>e. find (\<lambda>e. key e = k) d = Some e"
proof -
  assume "getElementById i d = Some k"
  then obtain e where "find (\<lambda>e. i \<noteq> [] \<and> ident e = i) d = Some e" "key e = k"
    by (auto simp: getElementById_def querySelector_def)
  then have "e \<in> set d"
    by (auto simp: find_Some_iff)
  then have "find (\<lambda>e. key e = k) d \<noteq> None"
    using \<open>key e = k\<close> by (auto simp: find_None_iff)
  then show ?thesis by auto
qed

lemma content_of_set_innerHTML:
  "getElementById i (doc p) = Some k \<Longrightarrow> content_of k (doc (set_innerHTML env k html p)) = Some html"
  using getElementById_key [of i "doc p" k]
  by (auto simp: content_of_def element_of_def find_replace_children)

lemma loadSection_failure:
  assumes "fetch_failure env path = Some err" and "getElementById i (doc p) = Some k"
  shows "content_of k (doc (loadSection env i path p)) = Some (failure_notice path)"
proof -
  have "loadSection env i path p =
      load_failed env i path err ((emit (FetchIssued path) p)\<lparr>now := now p + latency env path\<rparr>)"
    using assms(1)
    by (auto simp: loadSection_def fetch_failure_def Let_def split: response.splits body.splits if_splits)
  then show ?thesis
    using assms(2) getElementById_key [OF assms(2)]
    by (auto simp: load_failed_def Let_def content_of_def element_of_def find_replace_children)
qed

lemma loadSection_success:
  assumes "fetch_failure env path = None" and "getElementById i (doc p) = Some k"
  shows "content_of k (doc (loadSection env i path p)) = Some (fill env path)"
  using assms getElementById_key [OF assms(2)]
  by (auto simp: loadSection_def fetch_failure_def fill_def Let_def content_of_def element_of_def
      find_replace_children split: response.splits body.splits if_splits)


lemma fill_when_failed: "fetch_failure env path = Some err \<Longrightarrow> fill env path = failure_notice path"
  by (auto simp: fetch_failure_def fill_def split: response.splits body.splits if_splits)

lemma doc_loadSection:
  assumes "doc p = doc q" "next_key p = next_key q"
  shows "doc (loadSection env i path p) = doc (fill_container env (i, path) q)
    \<and> next_key (loadSection env i path p) = next_key (fill_container env (i, path) q)"
  using assms
  by (simp add: loadSection_def load_failed_def fill_container_def fill_def set_innerHTML_def
      emit_def Let_def split: response.split body.split option.split)

lemma doc_load_each:
  "doc p = doc q \<Longrightarrow> next_key p = next_key q \<Longrightarrow>
   doc (load_each env ds p) = doc (foldl (\<lambda>r s. fill_container env s r) q ds)"
proof (induction ds arbitrary: p q)
  case Nil
  then show ?case by simp
next
  case (Cons s ds)
  have "doc (loadSection env (fst s) (snd s) p) = doc (fill_container env s q)"
    and "next_key (loadSection env (fst s) (snd s) p) = next_key (fill_container env s q)"
    using doc_loadSection [OF Cons.prems, of env "fst s" "snd s"] by simp_all
  then show ?case
    using Cons.IH by simp
qed

lemma content_loadSection:
  assumes "getElementById i (doc p) = Some k"
  shows "content_of k (doc (loadSection env i path p)) = Some (fill env path)"
proof (cases "fetch_failure env path")
  case None
  then show ?thesis using assms by (rule loadSection_success)
next
  case (Some err)
  then show ?thesis
    using loadSection_failure [OF Some assms] by (simp add: fill_when_failed)
qed

lemma written_loadSection:
  assumes "getElementById i (doc p) = Some k"
  shows "written (log (loadSection env i path p)) = written (log p) @ [(i, fill env path)]"
  using assms by (auto simp: log_loadSection fill_when_failed split: option.splits)

lemma site_fills:
  "fill site (lit ''sections/navbar.html'') = lit ''<hr>''"
  "fill site (lit ''sections/hero.html'') = failure_notice (lit ''sections/hero.html'')"
  by (simp_all add: fill_def site_def response_ok_def lit_def)

text \<open>
  Claim C2. For every descriptor list the loader works through the descriptors one at a
  time, in list order. The log of a run is the concatenation, in descriptor order, of
  one block per descriptor; a block starts with the descriptor's fetch and holds, before
  the next block's fetch, everything the settled fetch leads to. The fetches take the sum
  of their latencies, one after the other, and the latencies change nothing in the
  document or in the log. The document at the end is the one obtained by filling the
  containers one descriptor after the other in list order; and at every position of the
  list, a descriptor whose container exists when its turn comes has that container
  holding the descriptor's markup, and that write as the last one of the log, before
  the next descriptor's fetch is issued.
\<close>

theorem loader_in_descriptor_order:
  "(\<exists>blocks. log (load_each env ds p) = log p @ concat blocks
       \<and> list_all2 (section_block env) ds blocks)
   \<and> fetched (log (load_each env ds p)) = fetched (log p) @ map snd ds
   \<and> now (load_each env ds p) = now p + sum_list (map (latency env \<circ> snd) ds)
   \<and> doc (load_each (env\<lparr>latency := l\<rparr>) ds p) = doc (load_each env ds p)
   \<and> log (load_each (env\<lparr>latency := l\<rparr>) ds p) = log (load_each env ds p)
   \<and> doc (load_each env ds p) = doc (foldl (\<lambda>q s. fill_container env s q) p ds)
   \<and> (\<forall>before s after k.
         ds = before @ s # after \<longrightarrow>
         getElementById (fst s) (doc (load_each env before p)) = Some k \<longrightarrow>
           content_of k (doc (load_each env (before @ [s]) p)) = Some (fill env (snd s))
           \<and> written (log (load_each env (before @ [s]) p)) =
               written (log (load_each env before p)) @ [(fst s, fill env (snd s))])"
proof -
  have "doc (load_each (env\<lparr>latency := l\<rparr>) ds p) = doc (load_each env ds p)"
    and "log (load_each (env\<lparr>latency := l\<rparr>) ds p) = log (load_each env ds p)"
    by (simp_all add: load_each_latency)
  moreover have "doc (load_each env ds p) = doc (foldl (\<lambda>q s. fill_container env s q) p ds)"
    by (rule doc_load_each) simp_all
  moreover have "content_of k (doc (load_each env (before @ [s]) p)) = Some (fill env (snd s))
           \<and> written (log (load_each env (before @ [s]) p)) =
               written (log (load_each env before p)) @ [(fst s, fill env (snd s))]"
    if "getElementById (fst s) (doc (load_each env before p)) = Some k" for before s k
    using that by (simp add: load_each_append content_loadSection written_loadSection)
  ultimately show ?thesis
    using load_each_blocks [of env ds p] fetched_load_each [of env ds p] now_load_each [of env ds p]
    by blast
qed

theorem loader_in_descriptor_order_witness:
  "sections = [] @ (''section-navbar'', lit ''sections/navbar.html'') # tl sections
   \<and> getElementById ''section-navbar'' (doc (load_each site [] index_page)) = Some 0
   \<and> content_of 0 (doc (load_each site ([] @ [(''section-navbar'', lit ''sections/navbar.html'')]) index_page))
       = Some (lit ''<hr>'')
   \<and> written (log (load_each site ([] @ [(''section-navbar'', lit ''sections/navbar.html'')]) index_page))
       = [(''section-navbar'', lit ''<hr>'')]"
proof -
  have a: "sections = [] @ (''section-navbar'', lit ''sections/navbar.html'') # tl sections"
    by (simp add: sections_def)
  have b: "getElementById (fst (''section-navbar'', lit ''sections/navbar.html''))
      (doc (load_each site [] index_page)) = Some 0"
    by (simp add: getElementById_def querySelector_def index_page_def page_with_def plain_def)
  have c: "written (log (load_each site [] index_page)) = []"
    by (simp add: index_page_def page_with_def)
  from loader_in_descriptor_order [of site sections index_page]
  have "\<forall>before s after k.
         sections = before @ s # after \<longrightarrow>
         getElementById (fst s) (doc (load_each site before index_page)) = Some k \<longrightarrow>
           content_of k (doc (load_each site (before @ [s]) index_page)) = Some (fill site (snd s))
           \<and> written (log (load_each site (before @ [s]) index_page)) =
               written (log (load_each site before index_page)) @ [(fst s, fill site (snd s))]"
    by blast
  from this [rule_format, OF a b] show ?thesis
    using a b c by (simp add: site_fills)
qed

text \<open>
  Claim C3. When the fetch of a descriptor fails (transport error, status outside 200 to
  299, unreadable body) and its container exists, the container's content becomes the
  failure notice, which reads "Failed to load" and the resource path; the loop goes on
  with the descriptors after it, each of which is fetched, and the initializer is
  invoked on the page they leave.
\<close>

theorem failed_fetch_degrades:
  assumes "fetch_failure env path = Some err"
    and "getElementById i (doc (load_each env before p)) = Some k"
  shows "content_of k (doc (load_each env (before @ [(i, path)]) p)) = Some (failure_notice path)
    \<and> (\<exists>a b. failure_notice path = a @ lit ''Failed to load '' @ path @ b)
    \<and> log (load_each env (before @ [(i, path)]) p) =
        log (load_each env before p)
          @ [FetchIssued path, ConsoleError path err, InnerHTMLSet i (failure_notice path)]
    \<and> load_each env (before @ (i, path) # after) p =
        load_each env after (load_each env (before @ [(i, path)]) p)
    \<and> fetched (log (load_each env (before @ (i, path) # after) p)) =
        fetched (log p) @ map snd before @ path # map snd after
    \<and> loadAllSections env (before @ (i, path) # after) p =
        initInteractions env (load_each env (before @ (i, path) # after) p)"
proof -
  let ?q = "load_each env before p"
  have 1: "content_of k (doc (loadSection env i path ?q)) = Some (failure_notice path)"
    using assms by (rule loadSection_failure)
  have 2: "\<exists>a b. failure_notice path = a @ lit ''Failed to load '' @ path @ b"
  proof -
    have "failure_notice path =
        (lit ''<div class='' @ [0x22] @ lit ''container py-4'' @ [0x22] @ lit ''><p class='' @ [0x22]
          @ lit ''text-muted'' @ [0x22] @ lit ''>'') @ lit ''Failed to load '' @ path @ lit ''</p></div>''"
      by (simp add: failure_notice_def lit_def)
    then show ?thesis by blast
  qed
  have 3: "log (loadSection env i path ?q) =
      log ?q @ [FetchIssued path, ConsoleError path err, InnerHTMLSet i (failure_notice path)]"
    using assms by (simp add: log_loadSection)
  have 4: "load_each env (before @ (i, path) # after) p =
        load_each env after (load_each env (before @ [(i, path)]) p)"
    by (simp add: load_each_append)
  show ?thesis
    using 1 2 3 4 by (simp add: load_each_append fetched_load_each loadAllSections_def)
qed

theorem failed_fetch_degrades_witness:
  "fetch_failure site (lit ''sections/hero.html'') = Some (HttpStatus 404)
   \<and> getElementById ''section-hero'' (doc (load_each site [] index_page)) = Some 1
   \<and> content_of 1 (doc (load_each site ([] @ [(''section-hero'', lit ''sections/hero.html'')]) index_page))
       = Some (failure_notice (lit ''sections/hero.html''))"
proof -
  have a: "fetch_failure site (lit ''sections/hero.html'') = Some (HttpStatus 404)"
    by (simp add: fetch_failure_def site_def response_ok_def)
  have b: "getElementById ''section-hero'' (doc (load_each site [] index_page)) = Some 1"
    by (simp add: getElementById_def querySelector_def index_page_def page_with_def plain_def)
  show ?thesis
    using a b failed_fetch_degrades [OF a b, THEN conjunct1] by blast
qed


section \<open>Properties of the initializer\<close>

lemma log_stamp [simp]: "log (stamp txt ks p) = log p"
  by (induction ks arbitrary: p) (simp_all add: set_textContent_def)

lemma log_setYear [simp]: "log (setYear env p) = log p"
  by (simp add: setYear_def)

lemma log_initLazyLoader [simp]: "log (initLazyLoader p) = log p"
  by (simp add: initLazyLoader_def)

lemma log_initRevealOnScroll [simp]: "log (initRevealOnScroll p) = log p"
  by (simp add: initRevealOnScroll_def)

lemma initInteractions_throws:
  assumes "globals env ''initNavScroll'' = None"
  shows "initInteractions env p =
      Thrown (ReferenceError ''initNavScroll'')
        (initRevealOnScroll (emit (Called ''initRevealOnScroll'')
          (initLazyLoader (emit (Called ''initLazyLoader'')
            (setYear env (emit (Called ''setYear'') (emit (Called ''initInteractions'') p)))))))"
  using assms by (simp add: initInteractions_def call_function_def main_js_def)

lemma calls_loadSection [simp]: "calls (log (loadSection env i path p)) = calls (log p)"
  by (simp add: log_loadSection split: option.split)

lemma calls_load_each [simp]: "calls (log (load_each env ds p)) = calls (log p)"
  by (induction ds arbitrary: p) simp_all

lemma unwired_replace_children:
  "unwired d \<Longrightarrow> unwired kids \<Longrightarrow> unwired (replace_children k src kids d)"
proof (induction d)
  case Nil
  then show ?case by simp
next
  case (Cons e es)
  have "set (dropWhile (\<lambda>x. depth e < depth x) es) \<subseteq> set es"
    by (auto dest: set_dropWhileD)
  then show ?case
    using Cons by (auto simp: unwired_def list_all_iff)
qed

lemma unwired_fresh: "unwired (fresh b kids)"
  by (auto simp: unwired_def fresh_def list_all_iff)

lemma unwired_loadSection: "unwired (doc p) \<Longrightarrow> unwired (doc (loadSection env i path p))"
  by (auto simp: loadSection_def load_failed_def Let_def unwired_replace_children unwired_fresh
      split: response.splits body.splits option.splits)

lemma unwired_load_each: "unwired (doc p) \<Longrightarrow> unwired (doc (load_each env ds p))"
  by (induction ds arbitrary: p) (simp_all add: unwired_loadSection)

lemma unwired_Nil: "unwired []"
  by (simp add: unwired_def)

lemma unwired_stamp: "unwired (doc p) \<Longrightarrow> unwired (doc (stamp txt ks p))"
  by (induction ks arbitrary: p) (simp_all add: set_textContent_def unwired_replace_children unwired_Nil)

lemma unwired_early_routines:
  "unwired (doc p) \<Longrightarrow>
   unwired (doc (initRevealOnScroll (emit a (initLazyLoader (emit b (setYear env (emit c (emit d p))))))))"
proof -
  assume "unwired (doc p)"
  then have "unwired (doc (setYear env (emit c (emit d p))))"
    by (simp add: setYear_def unwired_stamp)
  then have "unwired (doc (initLazyLoader (emit b (setYear env (emit c (emit d p))))))"
    by (auto simp: initLazyLoader_def update_all_def observe_def unwired_def list_all_iff)
  then show ?thesis
    by (auto simp: initRevealOnScroll_def update_all_def observe_new_def unwired_def list_all_iff)
qed

lemma site_globals: "globals site ''initNavScroll'' = None"
  by (simp add: site_def)

text \<open>
  Claim C1. On the page of the repository (its manifest, a server that answers every
  fetch, no script besides main.js) every descriptor is fetched and then
  \<open>initInteractions\<close> is called once; it runs \<open>setYear\<close>, \<open>initLazyLoader\<close> and
  \<open>initRevealOnScroll\<close> and then throws \<open>ReferenceError\<close> at the call of
  \<open>initNavScroll\<close>, which main.js does not declare. The routines after it never run:
  no element of the page, the order form included, has a listener.
\<close>

theorem initializer_stops_at_initNavScroll:
  "thrown (loadAllSectionsSequentially site index_page) = Some (ReferenceError ''initNavScroll'')
   \<and> fetched (log (page_of (loadAllSectionsSequentially site index_page))) = map snd sections
   \<and> calls (log (page_of (loadAllSectionsSequentially site index_page))) =
      [''initInteractions'', ''setYear'', ''initLazyLoader'', ''initRevealOnScroll'']
   \<and> getElementById ''orderForm'' (doc index_page) = Some 8
   \<and> list_all (\<lambda>e. listeners e = []) (doc (page_of (loadAllSectionsSequentially site index_page)))"
proof -
  let ?q = "load_each site sections index_page"
  have run: "loadAllSectionsSequentially site index_page =
      Thrown (ReferenceError ''initNavScroll'')
        (initRevealOnScroll (emit (Called ''initRevealOnScroll'')
          (initLazyLoader (emit (Called ''initLazyLoader'')
            (setYear site (emit (Called ''setYear'') (emit (Called ''initInteractions'') ?q)))))))"
    by (simp add: loadAllSectionsSequentially_def loadAllSections_def
        initInteractions_throws [OF site_globals])
  have start: "log index_page = []" "unwired (doc index_page)"
    by (simp_all add: index_page_def page_with_def plain_def unwired_def)
  have form: "getElementById ''orderForm'' (doc index_page) = Some 8"
    by (simp add: getElementById_def querySelector_def index_page_def page_with_def plain_def)
  have "unwired (doc ?q)"
    using start by (simp add: unwired_load_each)
  then have "unwired (doc (page_of (loadAllSectionsSequentially site index_page)))"
    by (simp add: run unwired_early_routines)
  then show ?thesis
    using start form by (simp add: run fetched_load_each unwired_def)
qed

subsection \<open>Absent targets\<close>

lemma navbar_absent:
  "getElementById ''topNav'' (doc p) = None \<Longrightarrow>
   navbar_on_ready p =
     Thrown (TypeError ''navbar is null'')
       (p\<lparr>window_listeners := window_listeners p @ [(''scroll'', NavScroll None)]\<rparr>)"
  by (simp add: navbar_on_ready_def onScroll_def)

lemma scroller_absent:
  "querySelector (\<lambda>e. has_class ''services-scroll'' e \<or> ident e = ''servicesScroll'') (doc p) = None
   \<Longrightarrow> initServicesScroller p = p"
  by (simp add: initServicesScroller_def)

lemma lightbox_absent: "getElementById ''pfLightbox'' (doc p) = None \<Longrightarrow> initPortfolioLightbox p = p"
  by (simp add: initPortfolioLightbox_def)

lemma contact_absent:
  "getElementById ''contactForm'' (doc p) = None \<Longrightarrow> initContactForm p = Normal p"
  by (simp add: initContactForm_def)

lemma forms_absent:
  "getElementById ''orderForm'' (doc p) = None \<Longrightarrow> getElementById ''contactForm'' (doc p) = None \<Longrightarrow>
   querySelector (\<lambda>e. ident e = ''btn-wa'') (doc p) = None \<Longrightarrow> initOrderForm p = p"
  by (simp add: initOrderForm_def update_opt_def)

text \<open>
  Claim C4. On index.html as it is when \<open>DOMContentLoaded\<close> fires, with no element
  \<open>topNav\<close> yet, the navbar listener throws \<open>TypeError\<close> on its first
  \<open>onScroll()\<close> and leaves a scroll listener that throws on every scroll event, while
  the scroller, lightbox and contact-form routines return at once on the same page.
\<close>

theorem navbar_listener_throws_without_navbar:
  "getElementById ''topNav'' (doc index_page) = None
   \<and> navbar_on_ready index_page =
       Thrown (TypeError ''navbar is null'')
         (index_page\<lparr>window_listeners := [(''scroll'', NavScroll None)]\<rparr>)
   \<and> thrown (onScroll None (index_page\<lparr>scrollY := 120\<rparr>)) = Some (TypeError ''navbar is null'')
   \<and> initServicesScroller index_page = index_page
   \<and> initPortfolioLightbox index_page = index_page
   \<and> initContactForm index_page = Normal index_page"
proof -
  have d: "doc index_page =
     [plain 0 0 ''div'' ''section-navbar'', plain 1 0 ''div'' ''section-hero'',
        plain 2 0 ''div'' ''section-services'', plain 3 0 ''div'' ''section-portfolio'',
        plain 4 0 ''div'' ''section-ig'', plain 5 0 ''div'' ''section-pesan'',
        plain 6 0 ''div'' ''section-cta'', plain 7 0 ''div'' ''section-footer'',
        plain 8 0 ''form'' ''orderForm'']" "window_listeners index_page = []"
    by (simp_all add: index_page_def page_with_def)
  have nav: "getElementById ''topNav'' (doc index_page) = None"
    by (simp add: d getElementById_def querySelector_def plain_def)
  have a: "querySelector (\<lambda>e. has_class ''services-scroll'' e \<or> ident e = ''servicesScroll'') (doc index_page) = None"
    by (simp add: d querySelector_def plain_def has_class_def)
  have b: "getElementById ''pfLightbox'' (doc index_page) = None"
    by (simp add: d getElementById_def querySelector_def plain_def)
  have c: "getElementById ''contactForm'' (doc index_page) = None"
    by (simp add: d getElementById_def querySelector_def plain_def)
  show ?thesis
    using nav navbar_absent [OF nav] scroller_absent [OF a] lightbox_absent [OF b] contact_absent [OF c]
    by (simp add: d onScroll_def)
qed

section \<open>Properties of the event handlers\<close>

lemma has_class_add [simp]: "has_class c (add_class c e)"
  by (simp add: has_class_def add_class_def)

lemma has_class_remove [simp]: "\<not> has_class c (remove_class c e)"
  by (simp add: has_class_def remove_class_def)

lemma key_add_class [simp]: "key (add_class c e) = key e"
  by (simp add: add_class_def)

lemma key_remove_class [simp]: "key (remove_class c e) = key e"
  by (simp add: remove_class_def)

lemma key_update_el: "(\<And>e. key (f e) = key e) \<Longrightarrow> map key (update_el k f d) = map key d"
  by (simp add: update_el_def)

lemma others_update_el:
  "(\<And>e. key (f e) = key e) \<Longrightarrow>
   filter (\<lambda>e. key e \<noteq> k) (update_el k f d) = filter (\<lambda>e. key e \<noteq> k) d"
  by (induction d) (simp_all add: update_el_def)

lemma targets_update_el:
  "(\<And>e. key (f e) = key e) \<Longrightarrow>
   filter (\<lambda>e. key e = k) (update_el k f d) = map f (filter (\<lambda>e. key e = k) d)"
  by (induction d) (simp_all add: update_el_def)

text \<open>
  With a navbar that the listener found, \<open>onScroll\<close> leaves it with the class
  \<open>scrolled\<close> exactly when \<open>scrollY\<close> is above 50, and changes no other element.
\<close>

lemma onScroll_with_navbar:
  "thrown (onScroll (Some k) p) = None
   \<and> list_all (\<lambda>e. has_class ''scrolled'' e = (50 < scrollY p))
        (filter (\<lambda>e. key e = k) (doc (page_of (onScroll (Some k) p))))
   \<and> map key (doc (page_of (onScroll (Some k) p))) = map key (doc p)
   \<and> filter (\<lambda>e. key e \<noteq> k) (doc (page_of (onScroll (Some k) p))) = filter (\<lambda>e. key e \<noteq> k) (doc p)
   \<and> scrollY (page_of (onScroll (Some k) p)) = scrollY p"
proof -
  have "list_all (\<lambda>e. has_class ''scrolled'' e = (50 < scrollY p))
        (filter (\<lambda>e. key e = k) (doc (page_of (onScroll (Some k) p))))"
    by (simp add: onScroll_def targets_update_el list.pred_map comp_def list.pred_True)
  then show ?thesis
    by (simp add: onScroll_def key_update_el others_update_el)
qed

lemma onScroll_on_navbar_page:
  "getElementById ''topNav'' (doc navbar_page) = Some 0
   \<and> map classes (doc (page_of (onScroll (Some 0) navbar_page))) = [[''scrolled'']]
   \<and> map classes (doc (page_of (onScroll (Some 0)
          ((page_of (onScroll (Some 0) navbar_page))\<lparr>scrollY := 50\<rparr>)))) = [[]]"
  by (simp add: navbar_page_def page_with_def plain_def onScroll_def update_el_def add_class_def
      remove_class_def getElementById_def querySelector_def)

subsection \<open>The navbar listener on the loaded page\<close>

lemma anchored_iff:
  "anchored pre p =
     (\<exists>rest. doc p = pre @ rest \<and> list_all (\<lambda>e. key e \<notin> set (map key pre)) rest
        \<and> list_all (\<lambda>e. key e < next_key p) pre)"
proof
  assume "anchored pre p"
  then have "doc p = pre @ drop (length pre) (doc p)"
    by (metis anchored_def append_take_drop_id)
  then show "\<exists>rest. doc p = pre @ rest \<and> list_all (\<lambda>e. key e \<notin> set (map key pre)) rest
        \<and> list_all (\<lambda>e. key e < next_key p) pre"
    using \<open>anchored pre p\<close> by (auto simp: anchored_def)
next
  assume "\<exists>rest. doc p = pre @ rest \<and> list_all (\<lambda>e. key e \<notin> set (map key pre)) rest
        \<and> list_all (\<lambda>e. key e < next_key p) pre"
  then show "anchored pre p"
    by (auto simp: anchored_def)
qed

lemma replace_children_prefix:
  "k \<notin> set (map key pre) \<Longrightarrow>
   replace_children k src kids (pre @ rest) = pre @ replace_children k src kids rest"
  by (induction pre) auto

lemma keys_replace_children:
  "set (map key (replace_children k src kids d)) \<subseteq> set (map key d) \<union> set (map key kids)"
proof (induction d)
  case Nil
  then show ?case by simp
next
  case (Cons e es)
  have "set (dropWhile (\<lambda>x. depth e < depth x) es) \<subseteq> set es"
    by (auto dest: set_dropWhileD)
  then show ?case
    using Cons by auto
qed

lemma keys_fresh: "e \<in> set (fresh base kids) \<Longrightarrow> base \<le> key e"
  by (auto simp: fresh_def in_set_enumerate_eq)

lemma find_after_prefix: "list_all (\<lambda>e. \<not> sel e) pre \<Longrightarrow> find sel (pre @ rest) = find sel rest"
  by (induction pre) auto

lemma anchored_emit [simp]: "anchored pre (emit ev p) = anchored pre p"
  by (simp add: anchored_iff)

lemma anchored_now [simp]: "anchored pre (p\<lparr>now := t\<rparr>) = anchored pre p"
  by (simp add: anchored_iff)

lemma anchored_replace:
  assumes "anchored pre p" and "k \<notin> set (map key pre)"
    and "list_all (\<lambda>e. next_key p \<le> key e) kids" and "next_key p \<le> n"
  shows "anchored pre (p\<lparr>doc := replace_children k src kids (doc p), next_key := n\<rparr>)"
proof -
  obtain rest where rest: "doc p = pre @ rest" "list_all (\<lambda>e. key e \<notin> set (map key pre)) rest"
    and low: "list_all (\<lambda>e. key e < next_key p) pre"
    using assms(1) by (auto simp: anchored_iff)
  have "key x \<notin> set (map key pre)" if "x \<in> set (replace_children k src kids rest)" for x
  proof -
    have "key x \<in> set (map key rest) \<union> set (map key kids)"
      using that keys_replace_children [of k src kids rest] by auto
    then show ?thesis
      using rest(2) low assms(3) by (fastforce simp: list_all_iff)
  qed
  then have "list_all (\<lambda>e. key e \<notin> set (map key pre)) (replace_children k src kids rest)"
    by (simp add: list_all_iff)
  moreover have "list_all (\<lambda>e. key e < n) pre"
    using low assms(4) by (auto simp: list_all_iff)
  ultimately show ?thesis
    using rest(1) assms(2) by (auto simp: anchored_iff replace_children_prefix)
qed

lemma anchored_lookup:
  assumes "anchored pre p" and "list_all (\<lambda>e. \<not> sel e) pre" and "querySelector sel (doc p) = Some k"
  shows "k \<notin> set (map key pre)"
proof -
  obtain rest where rest: "doc p = pre @ rest" "list_all (\<lambda>e. key e \<notin> set (map key pre)) rest"
    using assms(1) by (auto simp: anchored_iff)
  then obtain e where "find sel rest = Some e" "key e = k"
    using assms(2,3) by (auto simp: querySelector_def find_after_prefix)
  then show ?thesis
    using rest(2) by (auto simp: find_Some_iff list_all_iff)
qed

lemma anchored_set_innerHTML:
  "anchored pre p \<Longrightarrow> k \<notin> set (map key pre) \<Longrightarrow> anchored pre (set_innerHTML env k html p)"
  by (simp add: set_innerHTML_def Let_def anchored_replace list_all_iff keys_fresh)

lemma anchored_loadSection:
  assumes "anchored pre p" and "list_all (\<lambda>e. ident e \<noteq> i) pre"
  shows "anchored pre (loadSection env i path p)"
proof -
  have "k \<notin> set (map key pre)" if "getElementById i (doc p) = Some k" for k
    using anchored_lookup [OF assms(1), of "\<lambda>e. i \<noteq> [] \<and> ident e = i" k] assms(2) that
    by (auto simp: getElementById_def list_all_iff)
  then show ?thesis
    using assms(1)
    by (simp add: loadSection_def load_failed_def Let_def anchored_set_innerHTML
        split: response.split body.split option.split)
qed

lemma anchored_load_each:
  "anchored pre p \<Longrightarrow> list_all (\<lambda>s. list_all (\<lambda>e. ident e \<noteq> fst s) pre) ds \<Longrightarrow>
   anchored pre (load_each env ds p)"
  by (induction ds arbitrary: p) (simp_all add: anchored_loadSection)

lemma anchored_stamp:
  "anchored pre p \<Longrightarrow> list_all (\<lambda>k. k \<notin> set (map key pre)) ks \<Longrightarrow> anchored pre (stamp txt ks p)"
proof (induction ks arbitrary: p)
  case Nil
  then show ?case by simp
next
  case (Cons k ks)
  have "anchored pre (set_textContent k txt p)"
    using Cons.prems anchored_replace [where p = p and pre = pre and k = k and kids = "[]"
        and n = "next_key p" and src = "txt"]
    by (simp add: set_textContent_def)
  then show ?case
    using Cons by simp
qed

lemma anchored_setYear:
  assumes "anchored pre p" and "list_all (\<lambda>e. \<not> year_selector e) pre"
  shows "anchored pre (setYear env p)"
proof -
  obtain rest where rest: "doc p = pre @ rest" "list_all (\<lambda>e. key e \<notin> set (map key pre)) rest"
    using assms(1) by (auto simp: anchored_iff)
  have "filter year_selector pre = []"
    using assms(2) by (auto simp: list_all_iff filter_empty_conv)
  then have "year_targets (doc p) = map key (filter year_selector rest)"
    by (simp add: year_targets_def rest(1))
  then have "list_all (\<lambda>k. k \<notin> set (map key pre)) (year_targets (doc p))"
    using rest(2) by (auto simp: list_all_iff)
  then show ?thesis
    using assms(1) by (simp add: setYear_def anchored_stamp)
qed

lemma anchored_update_all:
  assumes "anchored pre p" and "list_all (\<lambda>e. \<not> sel e) pre" and "\<And>e. key (f e) = key e"
  shows "anchored pre (p\<lparr>doc := update_all sel f (doc p)\<rparr>)"
proof -
  obtain rest where rest: "doc p = pre @ rest" "list_all (\<lambda>e. key e \<notin> set (map key pre)) rest"
    and low: "list_all (\<lambda>e. key e < next_key p) pre"
    using assms(1) by (auto simp: anchored_iff)
  have "update_all sel f pre = pre"
    using assms(2) by (induction pre) (auto simp: update_all_def)
  then have "update_all sel f (doc p) = pre @ update_all sel f rest"
    by (simp add: rest(1) update_all_def)
  moreover have "list_all (\<lambda>e. key e \<notin> set (map key pre)) (update_all sel f rest)"
    using rest(2) assms(3) by (auto simp: list_all_iff update_all_def)
  ultimately show ?thesis
    using low by (auto simp: anchored_iff)
qed

lemma anchored_initLazyLoader:
  assumes "anchored pre p" and "list_all (\<lambda>e. \<not> lazy_img e) pre"
  shows "anchored pre (initLazyLoader p)"
proof -
  have "key (observe LazyIO e) = key e" for e
    by (simp add: observe_def)
  then have "anchored pre (p\<lparr>doc := update_all lazy_img (observe LazyIO) (doc p)\<rparr>)"
    using assms by (intro anchored_update_all)
  then have "anchored pre
      (p\<lparr>doc := update_all lazy_img (observe LazyIO) (doc p), observeLazy_defined := True\<rparr>)"
    by (simp add: anchored_def)
  then show ?thesis
    using assms(1) by (simp add: initLazyLoader_def)
qed

lemma anchored_initRevealOnScroll:
  "anchored pre p \<Longrightarrow> list_all (\<lambda>e. \<not> has_class ''reveal'' e) pre \<Longrightarrow>
   anchored pre (initRevealOnScroll p)"
  using anchored_update_all [of pre p "has_class ''reveal''" "observe_new RevealIO"]
  by (auto simp: initRevealOnScroll_def observe_new_def)

lemma listeners_loadSection [simp]:
  "window_listeners (loadSection env i path p) = window_listeners p"
  by (simp add: loadSection_def load_failed_def set_innerHTML_def Let_def
      split: response.split body.split option.split)

lemma listeners_load_each [simp]: "window_listeners (load_each env ds p) = window_listeners p"
  by (induction ds arbitrary: p) simp_all

lemma listeners_stamp [simp]: "window_listeners (stamp t ks p) = window_listeners p"
  by (induction ks arbitrary: p) (simp_all add: set_textContent_def)

lemma listeners_early_routines [simp]:
  "window_listeners (setYear env p) = window_listeners p"
  "window_listeners (initLazyLoader p) = window_listeners p"
  "window_listeners (initRevealOnScroll p) = window_listeners p"
  by (simp_all add: setYear_def initLazyLoader_def initRevealOnScroll_def)

lemma site_nav_globals: "globals site_nav ''initNavScroll'' = None"
  by (simp add: site_nav_def site_def)

lemma index_page_fields:
  "doc index_page =
     [plain 0 0 ''div'' ''section-navbar'', plain 1 0 ''div'' ''section-hero'',
        plain 2 0 ''div'' ''section-services'', plain 3 0 ''div'' ''section-portfolio'',
        plain 4 0 ''div'' ''section-ig'', plain 5 0 ''div'' ''section-pesan'',
        plain 6 0 ''div'' ''section-cta'', plain 7 0 ''div'' ''section-footer'',
        plain 8 0 ''form'' ''orderForm'']"
  "window_listeners index_page = []" "next_key index_page = 9"
  by (simp_all add: index_page_def page_with_def)

lemma ready_page:
  "page_of (navbar_on_ready index_page) =
     index_page\<lparr>window_listeners := [(''scroll'', NavScroll None)]\<rparr>"
proof -
  have "getElementById ''topNav'' (doc index_page) = None"
    by (simp add: index_page_fields getElementById_def querySelector_def plain_def)
  then show ?thesis
    by (simp add: navbar_absent index_page_fields)
qed

lemma navbar_fragment_loaded:
  "doc (loadSection site_nav ''section-navbar'' (lit ''sections/navbar.html'')
          (index_page\<lparr>window_listeners := [(''scroll'', NavScroll None)]\<rparr>)) =
     [(plain 0 0 ''div'' ''section-navbar'')\<lparr>content := lit ''<nav id=topNav></nav>''\<rparr>,
      plain 9 1 ''nav'' ''topNav'']
     @ [plain 1 0 ''div'' ''section-hero'',
        plain 2 0 ''div'' ''section-services'', plain 3 0 ''div'' ''section-portfolio'',
        plain 4 0 ''div'' ''section-ig'', plain 5 0 ''div'' ''section-pesan'',
        plain 6 0 ''div'' ''section-cta'', plain 7 0 ''div'' ''section-footer'',
        plain 8 0 ''form'' ''orderForm'']"
  "next_key (loadSection site_nav ''section-navbar'' (lit ''sections/navbar.html'')
          (index_page\<lparr>window_listeners := [(''scroll'', NavScroll None)]\<rparr>)) = 10"
  by (simp_all add: loadSection_def site_nav_def site_def response_ok_def getElementById_def
      querySelector_def set_innerHTML_def fresh_def emit_def Let_def enumerate_eq_zip
      index_page_fields plain_def)

lemma loaded_page_anchored:
  "anchored
     [(plain 0 0 ''div'' ''section-navbar'')\<lparr>content := lit ''<nav id=topNav></nav>''\<rparr>,
      plain 9 1 ''nav'' ''topNav'']
     loaded_page"
proof -
  let ?pre = "[(plain 0 0 ''div'' ''section-navbar'')\<lparr>content := lit ''<nav id=topNav></nav>''\<rparr>,
      plain 9 1 ''nav'' ''topNav'']"
  let ?q0 = "index_page\<lparr>window_listeners := [(''scroll'', NavScroll None)]\<rparr>"
  let ?q1 = "loadSection site_nav ''section-navbar'' (lit ''sections/navbar.html'') ?q0"
  let ?q2 = "load_each site_nav (tl sections) ?q1"
  have "anchored ?pre ?q1"
    unfolding anchored_iff navbar_fragment_loaded
    by (rule exI [of _ "[plain 1 0 ''div'' ''section-hero'',
        plain 2 0 ''div'' ''section-services'', plain 3 0 ''div'' ''section-portfolio'',
        plain 4 0 ''div'' ''section-ig'', plain 5 0 ''div'' ''section-pesan'',
        plain 6 0 ''div'' ''section-cta'', plain 7 0 ''div'' ''section-footer'',
        plain 8 0 ''form'' ''orderForm'']"]) (simp add: plain_def)
  moreover have "list_all (\<lambda>s. list_all (\<lambda>e. ident e \<noteq> fst s) ?pre) (tl sections)"
    by (simp add: sections_def plain_def)
  ultimately have q2: "anchored ?pre ?q2"
    by (rule anchored_load_each)
  have pre: "list_all (\<lambda>e. \<not> year_selector e) ?pre" "list_all (\<lambda>e. \<not> lazy_img e) ?pre"
    "list_all (\<lambda>e. \<not> has_class ''reveal'' e) ?pre"
    by (simp_all add: year_selector_def lazy_img_def has_class_def plain_def)
  have "load_each site_nav sections ?q0 = ?q2"
    by (simp add: sections_def)
  then have eq: "loaded_page =
      initRevealOnScroll (emit (Called ''initRevealOnScroll'')
        (initLazyLoader (emit (Called ''initLazyLoader'')
          (setYear site_nav (emit (Called ''setYear'') (emit (Called ''initInteractions'') ?q2))))))"
    by (simp add: loaded_page_def ready_page loadAllSectionsSequentially_def loadAllSections_def
        initInteractions_throws [OF site_nav_globals])
  have "anchored ?pre (setYear site_nav (emit (Called ''setYear'') (emit (Called ''initInteractions'') ?q2)))"
    using q2 pre(1) by (intro anchored_setYear) simp_all
  then have "anchored ?pre (initLazyLoader (emit (Called ''initLazyLoader'')
          (setYear site_nav (emit (Called ''setYear'') (emit (Called ''initInteractions'') ?q2)))))"
    using pre(2) by (intro anchored_initLazyLoader) simp_all
  then show ?thesis
    unfolding eq using pre(3) by (intro anchored_initRevealOnScroll) simp_all
qed

text \<open>
  Claim C5. On the page the script itself builds, the toggle does not work: the navbar
  listener looks \<open>topNav\<close> up when \<open>DOMContentLoaded\<close> fires, before the loader has
  put sections/navbar.html into its container, and keeps \<open>null\<close>. Once the sections are
  loaded the document has the element \<open>topNav\<close>, without the class \<open>scrolled\<close>, and
  the only scroll listener is the one that holds \<open>null\<close>: at every scroll position it
  throws \<open>TypeError\<close> and leaves the page as it is.
\<close>

theorem navbar_listener_misses_loaded_navbar:
  "page_of (navbar_on_ready index_page) =
      index_page\<lparr>window_listeners := [(''scroll'', NavScroll None)]\<rparr>
   \<and> window_listeners loaded_page = [(''scroll'', NavScroll None)]
   \<and> find (\<lambda>e. ident e = ''topNav'') (doc loaded_page) = Some (plain 9 1 ''nav'' ''topNav'')
   \<and> getElementById ''topNav'' (doc loaded_page) = Some 9
   \<and> classes (plain 9 1 ''nav'' ''topNav'') = []
   \<and> onScroll None (loaded_page\<lparr>scrollY := y\<rparr>) =
       Thrown (TypeError ''navbar is null'') (loaded_page\<lparr>scrollY := y\<rparr>)"
proof -
  obtain rest where d: "doc loaded_page =
      [(plain 0 0 ''div'' ''section-navbar'')\<lparr>content := lit ''<nav id=topNav></nav>''\<rparr>,
       plain 9 1 ''nav'' ''topNav''] @ rest"
    using loaded_page_anchored by (auto simp: anchored_iff)
  have nav: "find (\<lambda>e. ident e = ''topNav'') (doc loaded_page) = Some (plain 9 1 ''nav'' ''topNav'')"
    "getElementById ''topNav'' (doc loaded_page) = Some 9"
    by (simp_all add: d getElementById_def querySelector_def plain_def)
  have "window_listeners loaded_page = [(''scroll'', NavScroll None)]"
    by (simp add: loaded_page_def ready_page loadAllSectionsSequentially_def loadAllSections_def
        initInteractions_throws [OF site_nav_globals])
  then show ?thesis
    using nav by (simp add: ready_page onScroll_def plain_def)
qed

text \<open>
  Claim C8. For every submission of either form, whatever the fields hold and whether or
  not the handler goes on to open the link, the first thing the handler does is
  \<open>preventDefault\<close>; the document is left as it was.
\<close>

theorem submit_prevents_default_first:
  "(\<exists>rest. log (page_of (order_submit data p)) = log p @ DefaultPrevented # rest)
   \<and> (\<exists>rest. log (page_of (contact_submit env contactForm p)) = log p @ DefaultPrevented # rest)
   \<and> doc (page_of (order_submit data p)) = doc p
   \<and> doc (page_of (contact_submit env contactForm p)) = doc p"
  by (simp add: order_submit_def contact_submit_def Let_def emit_def split: sum.split)

lemma observe_keeps [simp]:
  "classes (observe ob e) = classes e" "tag (observe ob e) = tag e" "key (observe ob e) = key e"
  by (simp_all add: observe_def)

lemma observe_idem [simp]: "observe ob (observe ob e) = observe ob e"
  by (simp add: observe_def)

lemma lazy_not_loaded_observe [simp]: "lazy_not_loaded (observe ob e) = lazy_not_loaded e"
  by (simp add: lazy_not_loaded_def lazy_img_def has_class_def)

text \<open>
  Claim C9. In every document state \<open>window.observeLazy\<close> leaves every element marked
  \<open>loaded\<close> exactly as it was; the only elements it changes are lazy images not marked
  loaded and not yet observed, which it starts to observe; a second rescan changes
  nothing; and an image the observer's callback has handled is marked loaded and no
  longer observed.
\<close>

theorem rescan_skips_loaded_images:
  "filter (has_class ''loaded'') (doc (observeLazy p)) = filter (has_class ''loaded'') (doc p)
   \<and> list_all2 (\<lambda>e' e. e' = e \<or> (tag e = ''img'' \<and> has_class ''lazy'' e \<and> \<not> has_class ''loaded'' e
                      \<and> LazyIO \<notin> set (observed_by e)
                      \<and> e' = e\<lparr>observed_by := observed_by e @ [LazyIO]\<rparr>))
        (doc (observeLazy p)) (doc p)
   \<and> observeLazy (observeLazy p) = observeLazy p
   \<and> (has_class ''loaded'' (lazy_entry True img) \<and> LazyIO \<notin> set (observed_by (lazy_entry True img)))"
proof -
  have 1: "filter (has_class ''loaded'') (update_all lazy_not_loaded (observe LazyIO) d)
      = filter (has_class ''loaded'') d" for d
    by (induction d) (auto simp: update_all_def lazy_not_loaded_def has_class_def)
  have 2: "list_all2 (\<lambda>e' e. e' = e \<or> (tag e = ''img'' \<and> has_class ''lazy'' e \<and> \<not> has_class ''loaded'' e
                      \<and> LazyIO \<notin> set (observed_by e)
                      \<and> e' = e\<lparr>observed_by := observed_by e @ [LazyIO]\<rparr>))
        (update_all lazy_not_loaded (observe LazyIO) d) d" for d
    by (induction d) (auto simp: update_all_def lazy_not_loaded_def lazy_img_def observe_def)
  have 3: "update_all lazy_not_loaded (observe LazyIO) (update_all lazy_not_loaded (observe LazyIO) d)
      = update_all lazy_not_loaded (observe LazyIO) d" for d
    by (induction d) (auto simp: update_all_def)
  have 4: "has_class ''loaded'' (lazy_entry True img) \<and> LazyIO \<notin> set (observed_by (lazy_entry True img))"
    by (simp add: lazy_entry_def unobserve_def has_class_def add_class_def Let_def)
  show ?thesis
    using 1 2 3 4 by (simp add: observeLazy_def)
qed

theorem rescan_skips_loaded_images_witness:
  "map classes (doc gallery_page) = [[''lazy''], [''lazy'', ''loaded'']]
   \<and> map observed_by (doc (observeLazy gallery_page)) = [[LazyIO], []]
   \<and> filter (has_class ''loaded'') (doc (observeLazy gallery_page)) =
       filter (has_class ''loaded'') (doc gallery_page)"
  using rescan_skips_loaded_images [of gallery_page, THEN conjunct1]
  by (simp add: observeLazy_def gallery_page_def page_with_def plain_def update_all_def
      lazy_not_loaded_def lazy_img_def has_class_def observe_def)

section \<open>Properties of percent-encoding\<close>

lemma hex_value_digit: "n < 16 \<Longrightarrow> hex_value (hex_digit n) = Some n"
proof (cases "n < 10")
  case True
  then have "n = 9 \<or> n = 8 \<or> n = 7 \<or> n = 6 \<or> n = 5 \<or> n = 4 \<or> n = 3 \<or> n = 2 \<or> n = 1 \<or> n = 0"
    by presburger
  then show ?thesis
    by (elim disjE) (simp_all add: hex_value_def hex_digit_def)
next
  case False
  moreover assume "n < 16"
  ultimately have "n = 15 \<or> n = 14 \<or> n = 13 \<or> n = 12 \<or> n = 11 \<or> n = 10"
    by presburger
  then show ?thesis
    by (elim disjE) (simp_all add: hex_value_def hex_digit_def)
qed

lemma parse_percent_octet:
  "b < 256 \<Longrightarrow> parse_hex_octet (hex_digit (b div 16) # hex_digit (b mod 16) # cs) = Some b"
  by (simp add: hex_value_digit less_mult_imp_div_less)

text \<open>Decoding one escaped octet sequence.\<close>

lemma decode_percent_start:
  "b < 256 \<Longrightarrow> decode_step 0x25 (hex_digit (b div 16) # hex_digit (b mod 16) # cs) =
     (if leading_ones b = 0 then Some ([of_nat b], 2)
      else if leading_ones b = 1 \<or> 4 < leading_ones b then None
      else
        (case continuation_octets (leading_ones b - 1) cs of
           None \<Rightarrow> None
         | Some bs \<Rightarrow>
             (case utf8_decode (b # bs) of
                None \<Rightarrow> None
              | Some v \<Rightarrow> Some (utf16_encode v, 2 + 3 * (leading_ones b - 1)))))"
  by (simp add: decode_step_def parse_percent_octet del: parse_hex_octet.simps)

lemma continuation_percent:
  "b < 256 \<Longrightarrow> continuation_octets (Suc n) (percent_octet b @ cs) =
     (case continuation_octets n cs of None \<Rightarrow> None | Some bs \<Rightarrow> Some (b # bs))"
  by (simp add: percent_octet_def parse_percent_octet del: parse_hex_octet.simps)

lemma decode_one_octet:
  assumes "cp < 0x80"
  shows "decodeURIComponent (concat (map percent_octet (utf8_encode cp)) @ t) =
    prepend [of_nat cp] (decodeURIComponent t)"
proof -
  have "leading_ones cp = 0" "cp < 256"
    using assms by (simp_all add: leading_ones_def)
  then show ?thesis
    using assms by (simp add: utf8_encode_def percent_octet_def decode_percent_start)
qed

lemma decode_two_octets:
  assumes "0x80 \<le> cp" "cp < 0x800"
  shows "decodeURIComponent (concat (map percent_octet (utf8_encode cp)) @ t) =
    prepend [of_nat cp] (decodeURIComponent t)"
proof -
  define b1 where "b1 = 0xC0 + cp div 0x40"
  define b2 where "b2 = 0x80 + cp mod 0x40"
  have b1: "0xC2 \<le> b1" "b1 < 0xE0" and b2: "0x80 \<le> b2" "b2 < 0xC0"
    using assms by (simp_all add: b1_def b2_def)
  have enc: "utf8_encode cp = [b1, b2]"
    using assms by (simp add: utf8_encode_def b1_def b2_def)
  have lo: "leading_ones b1 = 2"
    using b1 by (simp add: leading_ones_def)
  have v: "(b1 - 0xC0) * 0x40 + (b2 - 0x80) = cp"
    by (simp add: b1_def b2_def)
  have dec: "utf8_decode [b1, b2] = Some cp"
    using b1 b2 v by (simp add: is_cont_def)
  have u: "utf16_encode cp = [of_nat cp]"
    using assms by (simp add: utf16_encode_def)
  have "decode_step 0x25 (hex_digit (b1 div 16) # hex_digit (b1 mod 16) # percent_octet b2 @ t)
      = Some ([of_nat cp], 5)"
    using b1 b2 lo dec u
    by (simp add: decode_percent_start continuation_percent [where n = 0, simplified])
  then show ?thesis
    by (simp add: enc percent_octet_def)
qed


lemma continuation_two:
  "b2 < 256 \<Longrightarrow> b3 < 256 \<Longrightarrow>
   continuation_octets 2 (percent_octet b2 @ percent_octet b3 @ t) = Some [b2, b3]"
  by (simp add: numeral_2_eq_2 continuation_percent del: continuation_octets.simps(2))

lemma continuation_three:
  "b2 < 256 \<Longrightarrow> b3 < 256 \<Longrightarrow> b4 < 256 \<Longrightarrow>
   continuation_octets 3 (percent_octet b2 @ percent_octet b3 @ percent_octet b4 @ t) = Some [b2, b3, b4]"
  by (simp add: numeral_3_eq_3 continuation_percent del: continuation_octets.simps(2))

lemma decode_three_octets:
  assumes "0x800 \<le> cp" "cp < 0x10000" "cp < 0xD800 \<or> 0xDFFF < cp"
  shows "decodeURIComponent (concat (map percent_octet (utf8_encode cp)) @ t) =
    prepend [of_nat cp] (decodeURIComponent t)"
proof -
  define b1 where "b1 = 0xE0 + cp div 0x1000"
  define b2 where "b2 = 0x80 + (cp div 0x40) mod 0x40"
  define b3 where "b3 = 0x80 + cp mod 0x40"
  have b1: "0xE0 \<le> b1" "b1 < 0xF0" and b2: "0x80 \<le> b2" "b2 < 0xC0" and b3: "0x80 \<le> b3" "b3 < 0xC0"
    using assms by (simp_all add: b1_def b2_def b3_def)
  have enc: "utf8_encode cp = [b1, b2, b3]"
    using assms by (simp add: utf8_encode_def b1_def b2_def b3_def)
  have lo: "leading_ones b1 = 3"
    using b1 by (simp add: leading_ones_def)
  have "cp mod (0x40 * 0x40) = 0x40 * (cp div 0x40 mod 0x40) + cp mod 0x40"
    by (rule mod_mult2_eq)
  moreover have "cp = 0x1000 * (cp div 0x1000) + cp mod 0x1000"
    by simp
  ultimately have v: "(b1 - 0xE0) * 0x1000 + (b2 - 0x80) * 0x40 + (b3 - 0x80) = cp"
    by (simp add: b1_def b2_def b3_def)
  have dec: "utf8_decode [b1, b2, b3] = Some cp"
    using b1 b2 b3 assms by (simp add: is_cont_def v Let_def)
  have u: "utf16_encode cp = [of_nat cp]"
    using assms by (simp add: utf16_encode_def)
  have "decode_step 0x25
      (hex_digit (b1 div 16) # hex_digit (b1 mod 16) # percent_octet b2 @ percent_octet b3 @ t)
      = Some ([of_nat cp], 8)"
    using b1 b2 b3 lo dec u by (simp add: decode_percent_start continuation_two)
  then show ?thesis
    by (simp add: enc percent_octet_def)
qed

lemma decode_four_octets:
  assumes "0x10000 \<le> cp" "cp \<le> 0x10FFFF"
  shows "decodeURIComponent (concat (map percent_octet (utf8_encode cp)) @ t) =
    prepend (utf16_encode cp) (decodeURIComponent t)"
proof -
  define b1 where "b1 = 0xF0 + cp div 0x40000"
  define b2 where "b2 = 0x80 + (cp div 0x1000) mod 0x40"
  define b3 where "b3 = 0x80 + (cp div 0x40) mod 0x40"
  define b4 where "b4 = 0x80 + cp mod 0x40"
  have b1: "0xF0 \<le> b1" "b1 < 0xF8" and b2: "0x80 \<le> b2" "b2 < 0xC0"
    and b3: "0x80 \<le> b3" "b3 < 0xC0" and b4: "0x80 \<le> b4" "b4 < 0xC0"
    using assms by (simp_all add: b1_def b2_def b3_def b4_def)
  have enc: "utf8_encode cp = [b1, b2, b3, b4]"
    using assms by (simp add: utf8_encode_def b1_def b2_def b3_def b4_def)
  have lo: "leading_ones b1 = 4"
    using b1 by (simp add: leading_ones_def)
  have "cp mod (0x40 * 0x40) = 0x40 * (cp div 0x40 mod 0x40) + cp mod 0x40"
    by (rule mod_mult2_eq)
  moreover have "cp mod (0x1000 * 0x40) = 0x1000 * (cp div 0x1000 mod 0x40) + cp mod 0x1000"
    by (rule mod_mult2_eq)
  moreover have "cp = 0x40000 * (cp div 0x40000) + cp mod 0x40000"
    by simp
  ultimately have v:
    "(b1 - 0xF0) * 0x40000 + (b2 - 0x80) * 0x1000 + (b3 - 0x80) * 0x40 + (b4 - 0x80) = cp"
    by (simp add: b1_def b2_def b3_def b4_def)
  have dec: "utf8_decode [b1, b2, b3, b4] = Some cp"
    using b1 b2 b3 b4 assms by (simp add: is_cont_def v Let_def)
  have "decode_step 0x25
      (hex_digit (b1 div 16) # hex_digit (b1 mod 16) # percent_octet b2 @ percent_octet b3
        @ percent_octet b4 @ t)
      = Some (utf16_encode cp, 11)"
    using b1 b2 b3 b4 lo dec by (simp add: decode_percent_start continuation_three)
  then show ?thesis
    by (simp add: enc percent_octet_def)
qed


lemma surrogate_unat:
  "is_lead c \<longleftrightarrow> 0xD800 \<le> unat c \<and> unat c \<le> 0xDBFF"
  "is_trail c \<longleftrightarrow> 0xDC00 \<le> unat c \<and> unat c \<le> 0xDFFF"
  by (simp_all add: is_lead_def is_trail_def word_le_nat_alt)

lemma unat_code_unit: "unat (c :: 16 word) < 0x10000"
  using unsigned_less [of c, where ?'a = nat] by simp

lemma pair_round_trip:
  assumes "is_lead c" "is_trail d"
  shows "utf16_encode (pair_to_code_point c d) = [c, d]"
    and "0x10000 \<le> pair_to_code_point c d" and "pair_to_code_point c d \<le> 0x10FFFF"
proof -
  define h where "h = unat c - 0xD800"
  define l where "l = unat d - 0xDC00"
  have h: "h < 0x400" "0xD800 + h = unat c" and l: "l < 0x400" "0xDC00 + l = unat d"
    using assms by (simp_all add: surrogate_unat h_def l_def) linarith+
  have cp: "pair_to_code_point c d = h * 0x400 + l + 0x10000"
    by (simp add: pair_to_code_point_def h_def l_def)
  show "0x10000 \<le> pair_to_code_point c d" and "pair_to_code_point c d \<le> 0x10FFFF"
    using h l by (simp_all add: cp)
  have "(h * 0x400 + l) div 0x400 = h" "(h * 0x400 + l) mod 0x400 = l"
    using l by simp_all
  then have "utf16_encode (pair_to_code_point c d) = [of_nat (unat c), of_nat (unat d)]"
    using h l by (simp add: cp utf16_encode_def)
  then show "utf16_encode (pair_to_code_point c d) = [c, d]"
    by simp
qed

lemma unescaped_not_percent: "uri_unescaped c \<Longrightarrow> c \<noteq> 0x25"
proof
  assume "uri_unescaped c" and "c = 0x25"
  then have "uri_unescaped (0x25 :: 16 word)"
    by simp
  then show False
    by (simp add: uri_unescaped_def lit_def)
qed

lemma prepend_simps [simp]:
  "prepend s (Inl e) = Inl e" "prepend s (Inr t) = Inr (s @ t)"
  by (simp_all add: prepend_def)

lemma prepend_Nil [simp]: "prepend [] r = r"
  by (cases r) simp_all

lemma prepend_prepend [simp]: "prepend a (prepend b r) = prepend (a @ b) r"
  by (cases r) simp_all

lemma decode_unit:
  assumes "\<not> is_lead c" "\<not> is_trail c"
  shows "decodeURIComponent (concat (map percent_octet (utf8_encode (unat c))) @ t) =
    prepend [c] (decodeURIComponent t)"
proof -
  have range: "unat c < 0xD800 \<or> 0xDFFF < unat c"
    using assms by (auto simp: surrogate_unat)
  consider "unat c < 0x80" | "0x80 \<le> unat c" "unat c < 0x800" | "0x800 \<le> unat c"
    by linarith
  then have "decodeURIComponent (concat (map percent_octet (utf8_encode (unat c))) @ t) =
    prepend [of_nat (unat c)] (decodeURIComponent t)"
  proof cases
    case 1
    then show ?thesis by (rule decode_one_octet)
  next
    case 2
    then show ?thesis by (rule decode_two_octets)
  next
    case 3
    then show ?thesis using unat_code_unit [of c] range by (rule decode_three_octets)
  qed
  then show ?thesis by simp
qed

lemma decode_encode_step:
  assumes "encode_step c cs = Some (esc, n)"
  shows "decodeURIComponent (esc @ t) = prepend (c # take n cs) (decodeURIComponent t)"
proof (cases "uri_unescaped c")
  case True
  then have "esc = [c]" "n = 0" "c \<noteq> 0x25"
    using assms unescaped_not_percent by (simp_all add: encode_step_def)
  then show ?thesis
    by (simp add: decode_step_def)
next
  case False
  note plain = this
  show ?thesis
  proof (cases "is_lead c")
    case True
    then obtain d ds where cs: "cs = d # ds" and d: "is_trail d"
      and esc: "esc = concat (map percent_octet (utf8_encode (pair_to_code_point c d)))" and n: "n = 1"
      using assms plain by (auto simp: encode_step_def split: if_splits list.splits)
    show ?thesis
      using pair_round_trip [OF True d]
      by (simp add: esc n cs decode_four_octets)
  next
    case False
    then have "\<not> is_trail c" "esc = concat (map percent_octet (utf8_encode (unat c)))" "n = 0"
      using assms plain by (simp_all add: encode_step_def split: if_splits)
    then show ?thesis
      using False by (simp add: decode_unit)
  qed
qed

lemma decode_encode:
  "encodeURIComponent s = Inr t \<Longrightarrow> decodeURIComponent t = Inr s"
proof (induction s arbitrary: t rule: length_induct)
  case (1 s)
  show ?case
  proof (cases s)
    case Nil
    then show ?thesis using 1 by simp
  next
    case (Cons c cs)
    then obtain esc n where step: "encode_step c cs = Some (esc, n)"
      using 1(2) by (cases "encode_step c cs") auto
    then obtain r where r: "encodeURIComponent (drop n cs) = Inr r" and t: "t = esc @ r"
      using 1(2) Cons by (cases "encodeURIComponent (drop n cs)") auto
    have "length (drop n cs) < length s"
      using Cons by simp
    then have "decodeURIComponent r = Inr (drop n cs)"
      using 1(1) r by blast
    then show ?thesis
      using decode_encode_step [OF step, of r] by (simp add: t Cons)
  qed
qed

lemma encode_step_append:
  assumes "\<not> is_trail c'"
  shows "encode_step c (cs @ c' # b) =
    (case encode_step c cs of None \<Rightarrow> None | Some (esc, n) \<Rightarrow> Some (esc, n))"
    and "encode_step c cs = Some (esc, n) \<Longrightarrow> n \<le> length cs"
  using assms by (auto simp: encode_step_def split: list.splits if_splits)

lemma encode_before_unit:
  assumes "\<not> is_trail c'"
  shows "encodeURIComponent (a @ c' # b) =
    (case encodeURIComponent a of
       Inl e \<Rightarrow> Inl e
     | Inr ea \<Rightarrow> prepend ea (encodeURIComponent (c' # b)))"
proof (induction a rule: length_induct)
  case (1 a)
  show ?case
  proof (cases a)
    case Nil
    then show ?thesis by simp
  next
    case (Cons c cs)
    show ?thesis
    proof (cases "encode_step c cs")
      case None
      then show ?thesis
        using encode_step_append(1) [OF assms, of c cs b] by (simp add: Cons)
    next
      case (Some r)
      obtain esc n where r: "r = (esc, n)"
        by (cases r)
      have n: "n \<le> length cs"
        using Some r encode_step_append(2) [OF assms] by blast
      have step: "encode_step c (cs @ c' # b) = Some (esc, n)"
        using encode_step_append(1) [OF assms, of c cs b] Some r by simp
      have "length (drop n cs) < length a"
        using Cons by simp
      then have ih: "encodeURIComponent (drop n cs @ c' # b) =
          (case encodeURIComponent (drop n cs) of
             Inl e \<Rightarrow> Inl e
           | Inr ea \<Rightarrow> prepend ea (encodeURIComponent (c' # b)))"
        using 1 by blast
      show ?thesis
        using n by (simp add: Cons Some r step ih split: sum.split)
    qed
  qed
qed

lemmas uri_eval' = lit_def encode_step_def uri_unescaped_def is_lead_def
  is_trail_def utf8_encode_def hex_digit_def percent_octet_def 

lemma encode_literal_prefixes:
  "encodeURIComponent (lit ''Halo OnFix, saya '' @ r) =
     prepend (lit ''Halo%20OnFix%2C%20saya%20'') (encodeURIComponent r)"
  "encodeURIComponent (lit ''.%0AIngin layanan: '' @ r) =
     prepend (lit ''.%250AIngin%20layanan%3A%20'') (encodeURIComponent r)"
  "encodeURIComponent (lit ''%0A'' @ r) = prepend (lit ''%250A'') (encodeURIComponent r)"
  "encodeURIComponent (lit ''%0AHubungi saya di: '' @ r) =
     prepend (lit ''%250AHubungi%20saya%20di%3A%20'') (encodeURIComponent r)"
  by (simp_all add: uri_eval')

lemma encode_contact_message:
  "encodeURIComponent (contact_message name service msg phone) =
     (case encodeURIComponent name of Inl e \<Rightarrow> Inl e | Inr en \<Rightarrow>
      (case encodeURIComponent service of Inl e \<Rightarrow> Inl e | Inr es \<Rightarrow>
       (case encodeURIComponent msg of Inl e \<Rightarrow> Inl e | Inr em \<Rightarrow>
        (case encodeURIComponent phone of Inl e \<Rightarrow> Inl e | Inr ep \<Rightarrow>
           Inr (lit ''Halo%20OnFix%2C%20saya%20'' @ en @ lit ''.%250AIngin%20layanan%3A%20'' @ es
                  @ lit ''%250A'' @ em @ lit ''%250AHubungi%20saya%20di%3A%20'' @ ep)))))"
proof -
  have dot: "\<not> is_trail (0x2E :: 16 word)" and pct: "\<not> is_trail (0x25 :: 16 word)"
    by (simp_all add: is_trail_def)
  have l2: "lit ''.%0AIngin layanan: '' = 0x2E # lit ''%0AIngin layanan: ''"
    and l3: "lit ''%0A'' = 0x25 # lit ''0A''"
    and l4: "lit ''%0AHubungi saya di: '' = 0x25 # lit ''0AHubungi saya di: ''"
    by (simp_all add: lit_def)
  have a: "encodeURIComponent (name @ lit ''.%0AIngin layanan: '' @ r) =
      (case encodeURIComponent name of Inl e \<Rightarrow> Inl e
       | Inr en \<Rightarrow> prepend en (encodeURIComponent (lit ''.%0AIngin layanan: '' @ r)))" for name r
    by (simp only: l2 append_Cons encode_before_unit [OF dot])
  have b: "encodeURIComponent (s @ lit ''%0A'' @ r) =
      (case encodeURIComponent s of Inl e \<Rightarrow> Inl e
       | Inr es \<Rightarrow> prepend es (encodeURIComponent (lit ''%0A'' @ r)))" for s r
    by (simp only: l3 append_Cons encode_before_unit [OF pct])
  have c: "encodeURIComponent (m @ lit ''%0AHubungi saya di: '' @ r) =
      (case encodeURIComponent m of Inl e \<Rightarrow> Inl e
       | Inr em \<Rightarrow> prepend em (encodeURIComponent (lit ''%0AHubungi saya di: '' @ r)))" for m r
    by (simp only: l4 append_Cons encode_before_unit [OF pct])
  show ?thesis
    by (simp only: contact_message_def append_assoc encode_literal_prefixes a b c)
       (simp split: sum.split)
qed

section \<open>Properties of the outbound links\<close>

lemmas uri_eval = lit_def encode_step_def decode_step_def prepend_def uri_unescaped_def is_lead_def
  is_trail_def utf8_encode_def hex_digit_def percent_octet_def hex_value_def leading_ones_def

lemma order_text_dina:
  "order_text dina_order =
     lit ''Halo OnFix, saya *Dina* ingin memesan layanan: *AC Cleaning*.'' @ [0xA]
       @ lit ''NoWA: 0812xxxx'' @ [0xA] @ lit ''Catatan: pagi''"
  by (simp add: order_text_def dina_order_def form_get_def js_or_def order_message_def lit_def)

lemma encode_dina:
  "encodeURIComponent
     (lit ''Halo OnFix, saya *Dina* ingin memesan layanan: *AC Cleaning*.'' @ [0xA]
       @ lit ''NoWA: 0812xxxx'' @ [0xA] @ lit ''Catatan: pagi'') =
   Inr (lit ''Halo%20OnFix%2C%20saya%20*Dina*%20ingin%20memesan%20layanan%3A%20*AC%20Cleaning*.%0ANoWA%3A%200812xxxx%0ACatatan%3A%20pagi'')"
  by (simp add: uri_eval)

lemma decode_dina:
  "decodeURIComponent
     (lit ''Halo%20OnFix%2C%20saya%20*Dina*%20ingin%20memesan%20layanan%3A%20*AC%20Cleaning*.%0ANoWA%3A%200812xxxx%0ACatatan%3A%20pagi'') =
   Inr (lit ''Halo OnFix, saya *Dina* ingin memesan layanan: *AC Cleaning*.'' @ [0xA]
       @ lit ''NoWA: 0812xxxx'' @ [0xA] @ lit ''Catatan: pagi'')"
  by (simp add: uri_eval)

text \<open>
  Claim C6. For the order form submitted with name "Dina", service "AC Cleaning", phone
  "0812xxxx" and notes "pagi", the handler opens the recipient's link, and
  \<open>decodeURIComponent\<close> of its text parameter is the order template with these four
  values.
\<close>

theorem order_link_for_dina:
  "order_submit dina_order p =
     Normal (emit (WindowOpened
        (lit ''https://wa.me/6281931786798?text=''
          @ lit ''Halo%20OnFix%2C%20saya%20*Dina*%20ingin%20memesan%20layanan%3A%20*AC%20Cleaning*.%0ANoWA%3A%200812xxxx%0ACatatan%3A%20pagi'')
        (lit ''_blank'')) (emit DefaultPrevented p))
   \<and> decodeURIComponent
        (lit ''Halo%20OnFix%2C%20saya%20*Dina*%20ingin%20memesan%20layanan%3A%20*AC%20Cleaning*.%0ANoWA%3A%200812xxxx%0ACatatan%3A%20pagi'') =
      Inr (lit ''Halo OnFix, saya *Dina* ingin memesan layanan: *AC Cleaning*.'' @ [0xA]
        @ lit ''NoWA: 0812xxxx'' @ [0xA] @ lit ''Catatan: pagi'')"
  by (simp only: order_submit_def order_text_dina encode_dina decode_dina wa_prefix_def Let_def
      sum.case simp_thms)

lemma contact_text_cases:
  "contact_text env contactForm d =
     (if is_number (field_value contactForm ''name'' d) \<or> is_number (field_value contactForm ''phone'' d)
         \<or> is_number (field_value contactForm ''message'' d)
      then Inl (TypeError ''value.trim is not a function'')
      else Inr
       (lit ''Halo OnFix, saya ''
         @ (case field_value contactForm ''name'' d of StringValue v \<Rightarrow> trim v | _ \<Rightarrow> [])
         @ lit ''.%0AIngin layanan: ''
         @ (case field_value contactForm ''service'' d of
              NoValue \<Rightarrow> lit ''-''
            | StringValue v \<Rightarrow> if v = [] then lit ''-'' else v
            | NumberValue x \<Rightarrow> if x = 0 then lit ''-'' else show_number env x)
         @ lit ''%0A''
         @ (case field_value contactForm ''message'' d of StringValue v \<Rightarrow> trim v | _ \<Rightarrow> [])
         @ lit ''%0AHubungi saya di: ''
         @ (case field_value contactForm ''phone'' d of StringValue v \<Rightarrow> trim v | _ \<Rightarrow> [])))"
  by (simp add: contact_text_def contact_message_def trimmed_def service_or_dash_def or_str_def
      Let_def split: dom_value.split)

text \<open>
  Claim C7, as amended. In the order form every named field that is missing or empty is
  substituted as the empty string. The contact handler throws \<open>TypeError\<close> and builds
  no message when the element found for name, phone or message has a number as its
  \<open>value\<close>; otherwise a missing or empty name, phone or message is substituted as the
  empty string, present ones trimmed, and a missing or empty service as "-".
\<close>

theorem missing_fields_default:
  "order_text data =
     lit ''Halo OnFix, saya *''
       @ (case map_of data ''name'' of None \<Rightarrow> [] | Some (EntryText s) \<Rightarrow> s
           | Some EntryFile \<Rightarrow> lit ''[object File]'')
       @ lit ''* ingin memesan layanan: *''
       @ (case map_of data ''service'' of None \<Rightarrow> [] | Some (EntryText s) \<Rightarrow> s
           | Some EntryFile \<Rightarrow> lit ''[object File]'')
       @ lit ''*.'' @ [0xA] @ lit ''NoWA: ''
       @ (case map_of data ''phone'' of None \<Rightarrow> [] | Some (EntryText s) \<Rightarrow> s
           | Some EntryFile \<Rightarrow> lit ''[object File]'')
       @ [0xA] @ lit ''Catatan: ''
       @ (case map_of data ''notes'' of None \<Rightarrow> [] | Some (EntryText s) \<Rightarrow> s
           | Some EntryFile \<Rightarrow> lit ''[object File]'')
   \<and> contact_text env contactForm d =
     (if is_number (field_value contactForm ''name'' d) \<or> is_number (field_value contactForm ''phone'' d)
         \<or> is_number (field_value contactForm ''message'' d)
      then Inl (TypeError ''value.trim is not a function'')
      else Inr
       (lit ''Halo OnFix, saya ''
         @ (case field_value contactForm ''name'' d of StringValue v \<Rightarrow> trim v | _ \<Rightarrow> [])
         @ lit ''.%0AIngin layanan: ''
         @ (case field_value contactForm ''service'' d of
              NoValue \<Rightarrow> lit ''-''
            | StringValue v \<Rightarrow> if v = [] then lit ''-'' else v
            | NumberValue x \<Rightarrow> if x = 0 then lit ''-'' else show_number env x)
         @ lit ''%0A''
         @ (case field_value contactForm ''message'' d of StringValue v \<Rightarrow> trim v | _ \<Rightarrow> [])
         @ lit ''%0AHubungi saya di: ''
         @ (case field_value contactForm ''phone'' d of StringValue v \<Rightarrow> trim v | _ \<Rightarrow> [])))
   \<and> trim [] = []"
proof -
  have f: "to_string (js_or (form_get data n) (JStr [])) =
      (case map_of data n of None \<Rightarrow> [] | Some (EntryText s) \<Rightarrow> s | Some EntryFile \<Rightarrow> lit ''[object File]'')"
    for n
    by (simp add: form_get_def js_or_def lit_def split: option.split form_entry.split)
  have 1: "order_text data =
     lit ''Halo OnFix, saya *''
       @ (case map_of data ''name'' of None \<Rightarrow> [] | Some (EntryText s) \<Rightarrow> s
           | Some EntryFile \<Rightarrow> lit ''[object File]'')
       @ lit ''* ingin memesan layanan: *''
       @ (case map_of data ''service'' of None \<Rightarrow> [] | Some (EntryText s) \<Rightarrow> s
           | Some EntryFile \<Rightarrow> lit ''[object File]'')
       @ lit ''*.'' @ [0xA] @ lit ''NoWA: ''
       @ (case map_of data ''phone'' of None \<Rightarrow> [] | Some (EntryText s) \<Rightarrow> s
           | Some EntryFile \<Rightarrow> lit ''[object File]'')
       @ [0xA] @ lit ''Catatan: ''
       @ (case map_of data ''notes'' of None \<Rightarrow> [] | Some (EntryText s) \<Rightarrow> s
           | Some EntryFile \<Rightarrow> lit ''[object File]'')"
    by (simp only: order_text_def order_message_def Let_def f)
  note 2 = contact_text_cases [of env contactForm d]
  have 3: "trim [] = []"
    by (simp add: trim_def)
  show ?thesis
    using 1 2 3 by blast
qed

lemma contact_fields:
  "field_value 0 ''name'' (doc contact_page) = StringValue (lit ''Dina'')"
  "field_value 0 ''phone'' (doc contact_page) = StringValue (lit ''0812'')"
  "field_value 0 ''service'' (doc contact_page) = StringValue []"
  "field_value 0 ''message'' (doc contact_page) = StringValue (lit ''AC rusak'')"
  by (simp_all add: field_value_def contact_page_def page_with_def plain_def control_def)

lemma trim_examples: "trim (lit ''Dina'') = lit ''Dina''" "trim (lit ''0812'') = lit ''0812''"
  "trim (lit ''AC rusak'') = lit ''AC rusak''"
  by (simp_all add: trim_def lit_def js_space_def)

lemma contact_text_example:
  "contact_text env 0 (doc contact_page) =
     Inr (lit ''Halo OnFix, saya Dina.%0AIngin layanan: -%0AAC rusak%0AHubungi saya di: 0812'')"
  by (simp only: contact_text_def contact_fields trimmed_def service_or_dash_def or_str_def
      trim_examples contact_message_def Let_def dom_value.case sum.case) (simp add: lit_def)

text \<open>
  Claim C7 as stated fails on the contact form: with the service field empty the message
  reads "Ingin layanan: -", not "Ingin layanan: ".
\<close>

theorem empty_service_is_dash_counterexample:
  "field_value 0 ''service'' (doc contact_page) = StringValue []
   \<and> contact_text site 0 (doc contact_page) =
       Inr (lit ''Halo OnFix, saya Dina.%0AIngin layanan: -%0AAC rusak%0AHubungi saya di: 0812'')
   \<and> contact_text site 0 (doc contact_page) \<noteq>
       Inr (lit ''Halo OnFix, saya Dina.%0AIngin layanan: %0AAC rusak%0AHubungi saya di: 0812'')"
  by (simp add: contact_text_example contact_fields) (simp add: lit_def)

text \<open>A contact form whose \<open>name\<close> is a list item: the handler throws after \<open>preventDefault\<close>.\<close>

lemma numeric_name_throws:
  "field_value 0 ''name'' (doc scored_page) = NumberValue 3
   \<and> contact_submit env 0 scored_page =
       Thrown (TypeError ''value.trim is not a function'') (emit DefaultPrevented scored_page)"
proof -
  have "field_value 0 ''name'' (doc scored_page) = NumberValue 3"
    by (simp add: field_value_def scored_page_def page_with_def plain_def)
  then show ?thesis
    by (simp add: contact_submit_def contact_text_def trimmed_def Let_def)
qed

lemma encode_contact_example:
  "encodeURIComponent (lit ''Halo OnFix, saya Dina.%0AIngin layanan: -%0AAC rusak%0AHubungi saya di: 0812'')
   = Inr (lit ''Halo%20OnFix%2C%20saya%20Dina.%250AIngin%20layanan%3A%20-%250AAC%20rusak%250AHubungi%20saya%20di%3A%200812'')"
  by (simp add: uri_eval)

lemma decode_contact_example:
  "decodeURIComponent (lit ''Halo%20OnFix%2C%20saya%20Dina.%250AIngin%20layanan%3A%20-%250AAC%20rusak%250AHubungi%20saya%20di%3A%200812'')
   = Inr (lit ''Halo OnFix, saya Dina.'' @ [0x25, 0x30, 0x41] @ lit ''Ingin layanan: -'' @ [0x25, 0x30, 0x41]
       @ lit ''AC rusak'' @ [0x25, 0x30, 0x41] @ lit ''Hubungi saya di: 0812'')"
  by (simp add: uri_eval)

lemma percent_0A_units:
  "lit ''.%0AIngin layanan: '' = [0x2E, 0x25, 0x30, 0x41] @ lit ''Ingin layanan: ''"
  "lit ''%0A'' = [0x25, 0x30, 0x41]"
  "lit ''%0AHubungi saya di: '' = [0x25, 0x30, 0x41] @ lit ''Hubungi saya di: ''"
  "lit ''-'' = [0x2D]"
  by (simp_all add: lit_def)

lemma contact_text_Inr:
  assumes "contact_text env contactForm d = Inr message"
  shows "\<exists>name phone msg. message = contact_message name
            (service_or_dash env (field_value contactForm ''service'' d)) msg phone"
    and "message =
       lit ''Halo OnFix, saya ''
          @ (case field_value contactForm ''name'' d of StringValue v \<Rightarrow> trim v | _ \<Rightarrow> [])
          @ [0x2E, 0x25, 0x30, 0x41] @ lit ''Ingin layanan: ''
          @ (case field_value contactForm ''service'' d of
               NoValue \<Rightarrow> [0x2D]
             | StringValue v \<Rightarrow> if v = [] then [0x2D] else v
             | NumberValue x \<Rightarrow> if x = 0 then [0x2D] else show_number env x)
          @ [0x25, 0x30, 0x41]
          @ (case field_value contactForm ''message'' d of StringValue v \<Rightarrow> trim v | _ \<Rightarrow> [])
          @ [0x25, 0x30, 0x41] @ lit ''Hubungi saya di: ''
          @ (case field_value contactForm ''phone'' d of StringValue v \<Rightarrow> trim v | _ \<Rightarrow> [])"
proof -
  show "\<exists>name phone msg. message = contact_message name
            (service_or_dash env (field_value contactForm ''service'' d)) msg phone"
    using assms unfolding contact_text_def Let_def by (auto split: sum.splits)
  have "contact_text env contactForm d =
      Inr (lit ''Halo OnFix, saya ''
         @ (case field_value contactForm ''name'' d of StringValue v \<Rightarrow> trim v | _ \<Rightarrow> [])
         @ lit ''.%0AIngin layanan: ''
         @ (case field_value contactForm ''service'' d of
              NoValue \<Rightarrow> lit ''-''
            | StringValue v \<Rightarrow> if v = [] then lit ''-'' else v
            | NumberValue x \<Rightarrow> if x = 0 then lit ''-'' else show_number env x)
         @ lit ''%0A''
         @ (case field_value contactForm ''message'' d of StringValue v \<Rightarrow> trim v | _ \<Rightarrow> [])
         @ lit ''%0AHubungi saya di: ''
         @ (case field_value contactForm ''phone'' d of StringValue v \<Rightarrow> trim v | _ \<Rightarrow> []))"
    using assms contact_text_cases [of env contactForm d] by (simp split: if_splits)
  then show "message =
       lit ''Halo OnFix, saya ''
          @ (case field_value contactForm ''name'' d of StringValue v \<Rightarrow> trim v | _ \<Rightarrow> [])
          @ [0x2E, 0x25, 0x30, 0x41] @ lit ''Ingin layanan: ''
          @ (case field_value contactForm ''service'' d of
               NoValue \<Rightarrow> [0x2D]
             | StringValue v \<Rightarrow> if v = [] then [0x2D] else v
             | NumberValue x \<Rightarrow> if x = 0 then [0x2D] else show_number env x)
          @ [0x25, 0x30, 0x41]
          @ (case field_value contactForm ''message'' d of StringValue v \<Rightarrow> trim v | _ \<Rightarrow> [])
          @ [0x25, 0x30, 0x41] @ lit ''Hubungi saya di: ''
          @ (case field_value contactForm ''phone'' d of StringValue v \<Rightarrow> trim v | _ \<Rightarrow> [])"
    using assms by (simp only: percent_0A_units append_assoc append_Cons append_Nil sum.inject)
qed

text \<open>
  Claim C10. The contact handler's message holds the three characters "%0A" between its
  parts, not a line feed, and a missing or empty service reads "-". Whenever the handler
  builds its message and opens a link, the link's text holds "%250A" in their place, and
  \<open>decodeURIComponent\<close> of the text gives the message back, with the characters "%0A"
  in it. The order message, unlike it, holds line feeds.
\<close>

theorem contact_link_keeps_percent_0A:
  assumes "contact_text env contactForm (doc p) = Inr message"
    and "encodeURIComponent message = Inr text"
  shows "contact_submit env contactForm p =
      Normal (emit (WindowOpened (lit ''https://wa.me/6281931786798?text='' @ text) (lit ''_blank''))
        (emit DefaultPrevented p))
    \<and> message =
       lit ''Halo OnFix, saya ''
          @ (case field_value contactForm ''name'' (doc p) of StringValue v \<Rightarrow> trim v | _ \<Rightarrow> [])
          @ [0x2E, 0x25, 0x30, 0x41] @ lit ''Ingin layanan: ''
          @ (case field_value contactForm ''service'' (doc p) of
               NoValue \<Rightarrow> [0x2D]
             | StringValue v \<Rightarrow> if v = [] then [0x2D] else v
             | NumberValue x \<Rightarrow> if x = 0 then [0x2D] else show_number env x)
          @ [0x25, 0x30, 0x41]
          @ (case field_value contactForm ''message'' (doc p) of StringValue v \<Rightarrow> trim v | _ \<Rightarrow> [])
          @ [0x25, 0x30, 0x41] @ lit ''Hubungi saya di: ''
          @ (case field_value contactForm ''phone'' (doc p) of StringValue v \<Rightarrow> trim v | _ \<Rightarrow> [])
    \<and> (\<exists>en es em ep.
          text = lit ''Halo%20OnFix%2C%20saya%20'' @ en @ lit ''.%250AIngin%20layanan%3A%20'' @ es
                   @ lit ''%250A'' @ em @ lit ''%250AHubungi%20saya%20di%3A%20'' @ ep)
    \<and> decodeURIComponent text = Inr message
    \<and> (\<exists>a b c. order_text data = a @ [0x2E, 0xA] @ lit ''NoWA: '' @ b @ [0xA] @ lit ''Catatan: '' @ c)"
proof -
  have 1: "contact_submit env contactForm p =
      Normal (emit (WindowOpened (lit ''https://wa.me/6281931786798?text='' @ text) (lit ''_blank''))
        (emit DefaultPrevented p))"
    using assms by (simp add: contact_submit_def wa_prefix_def Let_def)
  obtain name phone msg where m: "message = contact_message name
      (service_or_dash env (field_value contactForm ''service'' (doc p))) msg phone"
    using contact_text_Inr(1) [OF assms(1)] by blast
  have 2: "\<exists>en es em ep.
          text = lit ''Halo%20OnFix%2C%20saya%20'' @ en @ lit ''.%250AIngin%20layanan%3A%20'' @ es
                   @ lit ''%250A'' @ em @ lit ''%250AHubungi%20saya%20di%3A%20'' @ ep"
    using assms(2)
    by (simp only: m encode_contact_message) (auto split: sum.splits)
  have 3: "decodeURIComponent text = Inr message"
    using assms(2) by (rule decode_encode)
  have "order_text data =
      (lit ''Halo OnFix, saya *'' @ to_string (js_or (form_get data ''name'') (JStr []))
        @ lit ''* ingin memesan layanan: *'' @ to_string (js_or (form_get data ''service'') (JStr []))
        @ lit ''*'') @ [0x2E, 0xA] @ lit ''NoWA: '' @ to_string (js_or (form_get data ''phone'') (JStr []))
        @ [0xA] @ lit ''Catatan: '' @ to_string (js_or (form_get data ''notes'') (JStr []))"
    by (simp add: order_text_def order_message_def Let_def lit_def)
  then have 4: "\<exists>a b c. order_text data = a @ [0x2E, 0xA] @ lit ''NoWA: '' @ b @ [0xA] @ lit ''Catatan: '' @ c"
    by blast
  show ?thesis
    using 1 2 3 4 contact_text_Inr(2) [OF assms(1)] by blast
qed

theorem contact_link_keeps_percent_0A_witness:
  "contact_text site 0 (doc contact_page) =
     Inr (lit ''Halo OnFix, saya Dina.%0AIngin layanan: -%0AAC rusak%0AHubungi saya di: 0812'')
   \<and> encodeURIComponent (lit ''Halo OnFix, saya Dina.%0AIngin layanan: -%0AAC rusak%0AHubungi saya di: 0812'') =
     Inr (lit ''Halo%20OnFix%2C%20saya%20Dina.%250AIngin%20layanan%3A%20-%250AAC%20rusak%250AHubungi%20saya%20di%3A%200812'')
   \<and> contact_submit site 0 contact_page =
      Normal (emit (WindowOpened (lit ''https://wa.me/6281931786798?text=''
          @ lit ''Halo%20OnFix%2C%20saya%20Dina.%250AIngin%20layanan%3A%20-%250AAC%20rusak%250AHubungi%20saya%20di%3A%200812'')
        (lit ''_blank'')) (emit DefaultPrevented contact_page))
   \<and> decodeURIComponent
        (lit ''Halo%20OnFix%2C%20saya%20Dina.%250AIngin%20layanan%3A%20-%250AAC%20rusak%250AHubungi%20saya%20di%3A%200812'') =
      Inr (lit ''Halo OnFix, saya Dina.'' @ [0x25, 0x30, 0x41] @ lit ''Ingin layanan: -'' @ [0x25, 0x30, 0x41]
        @ lit ''AC rusak'' @ [0x25, 0x30, 0x41] @ lit ''Hubungi saya di: 0812'')"
proof -
  have h1: "contact_text site 0 (doc contact_page) =
     Inr (lit ''Halo OnFix, saya Dina.%0AIngin layanan: -%0AAC rusak%0AHubungi saya di: 0812'')"
    by (rule contact_text_example)
  have h2: "encodeURIComponent (lit ''Halo OnFix, saya Dina.%0AIngin layanan: -%0AAC rusak%0AHubungi saya di: 0812'') =
     Inr (lit ''Halo%20OnFix%2C%20saya%20Dina.%250AIngin%20layanan%3A%20-%250AAC%20rusak%250AHubungi%20saya%20di%3A%200812'')"
    by (rule encode_contact_example)
  show ?thesis
    using h1 h2 contact_link_keeps_percent_0A [OF h1 h2, THEN conjunct1] decode_contact_example
    by blast
qed

end
